theory Spec2Isabelle
  imports Main
begin

section \<open>Tag utilities (src/utils/tag-utils.ts)\<close>

text \<open>
  JavaScript strings are modelled as lists of code units (\<open>string\<close>); \<open>s.length\<close> is
  \<open>length s\<close> and \<open>s[i]\<close> is \<open>s ! i\<close>, read only inside the bounds by the code below.

  \<open>levenshteinDistance\<close> fills a matrix of \<open>b.length + 1\<close> rows and \<open>a.length + 1\<close>
  columns in place. The matrix is a list of rows; the \<open>null\<close> that \<open>Array.fill\<close> puts
  into every cell is written \<open>0\<close>, the number JavaScript coerces it to in \<open>+\<close> and
  \<open>Math.min\<close>. The three \<open>for\<close> loops have fixed bounds and are folds over their index
  ranges.
\<close>

definition cell :: "nat list list \<Rightarrow> nat \<Rightarrow> nat \<Rightarrow> nat" where
  "cell m j i = m ! j ! i"

definition set_cell :: "nat list list \<Rightarrow> nat \<Rightarrow> nat \<Rightarrow> nat \<Rightarrow> nat list list" where
  "set_cell m j i v = m[j := (m ! j)[i := v]]"

definition substitutionCost :: "'a list \<Rightarrow> 'a list \<Rightarrow> nat \<Rightarrow> nat \<Rightarrow> nat" where
  "substitutionCost a b i j = (if a ! (i - 1) = b ! (j - 1) then 0 else 1)"

definition fill_cell :: "'a list \<Rightarrow> 'a list \<Rightarrow> nat \<Rightarrow> nat list list \<Rightarrow> nat \<Rightarrow> nat list list" where
  "fill_cell a b j m i =
     set_cell m j i
       (min (min (cell m j (i - 1) + 1) (cell m (j - 1) i + 1))
            (cell m (j - 1) (i - 1) + substitutionCost a b i j))"

definition fill_row :: "'a list \<Rightarrow> 'a list \<Rightarrow> nat list list \<Rightarrow> nat \<Rightarrow> nat list list" where
  "fill_row a b m j = fold (\<lambda>i m'. fill_cell a b j m' i) [1..<length a + 1] m"

definition init_matrix :: "'a list \<Rightarrow> 'a list \<Rightarrow> nat list list" where
  "init_matrix a b =
     (let matrix = replicate (length b + 1) (replicate (length a + 1) 0);
          matrix = fold (\<lambda>i m. set_cell m 0 i i) [0..<length a + 1] matrix
      in fold (\<lambda>j m. set_cell m j 0 j) [0..<length b + 1] matrix)"

definition levenshteinDistance :: "'a list \<Rightarrow> 'a list \<Rightarrow> nat" where
  "levenshteinDistance a b =
     (if length a = 0 then length b
      else if length b = 0 then length a
      else cell (fold (\<lambda>j m. fill_row a b m j) [1..<length b + 1] (init_matrix a b))
                (length b) (length a))"

text \<open>
  \<open>findSimilarTags\<close> filters the vault's tags (\<open>TagUtils.getAllVaultTags()\<close>, which reads
  the host application's metadata cache and is a parameter here) and returns the
  filtered array as it is.
\<close>

definition findSimilarTags :: "string list \<Rightarrow> string \<Rightarrow> nat \<Rightarrow> string list" where
  "findSimilarTags existingTags tag threshold =
     filter (\<lambda>existingTag.
               let distance = levenshteinDistance tag existingTag
               in distance \<le> threshold \<and> distance > 0)
            existingTags"

text \<open>
  The textbook definition of the Levenshtein distance between the first \<open>i\<close> symbols of
  \<open>a\<close> and the first \<open>j\<close> symbols of \<open>b\<close>, by the recurrence of Wagner and Fischer.
  This definition follows the specification's words ("Levenshtein edit distance"), not the
  source; \<open>levenshteinDistance\<close> above is compared with it.
\<close>

fun lev_prefix :: "'a list \<Rightarrow> 'a list \<Rightarrow> nat \<Rightarrow> nat \<Rightarrow> nat" where
  "lev_prefix a b 0 j = j"
| "lev_prefix a b (Suc i) 0 = Suc i"
| "lev_prefix a b (Suc i) (Suc j) =
     min (min (lev_prefix a b i (Suc j) + 1) (lev_prefix a b (Suc i) j + 1))
         (lev_prefix a b i j + (if a ! i = b ! j then 0 else 1))"

definition levenshtein_spec :: "'a list \<Rightarrow> 'a list \<Rightarrow> nat" where
  "levenshtein_spec a b = lev_prefix a b (length a) (length b)"

text \<open>
  The distance as a least number of edits: \<open>edits xs ys n\<close> says that \<open>ys\<close> comes from
  \<open>xs\<close> by an alignment, read from left to right, that deletes, inserts or substitutes
  \<open>n\<close> symbols in all and keeps the others.
\<close>

inductive edits :: "'a list \<Rightarrow> 'a list \<Rightarrow> nat \<Rightarrow> bool" where
  finished: "edits [] [] 0"
| delete: "edits xs ys n \<Longrightarrow> edits (xs @ [x]) ys (Suc n)"
| insert: "edits xs ys n \<Longrightarrow> edits xs (ys @ [y]) (Suc n)"
| keep: "edits xs ys n \<Longrightarrow> edits (xs @ [x]) (ys @ [x]) n"
| substitute: "edits xs ys n \<Longrightarrow> edits (xs @ [x]) (ys @ [y]) (Suc n)"

section \<open>Tag reconciliation (FileProcessor.enhanceTagConsistency)\<close>

text \<open>
  A JavaScript \<open>Set\<close> keeps its members in insertion order and \<open>add\<close> of a member that
  is already there changes nothing; \<open>Array.from\<close> lists the members in that order.
\<close>

definition set_add :: "'a list \<Rightarrow> 'a \<Rightarrow> 'a list" where
  "set_add s x = (if x \<in> set s then s else s @ [x])"

definition enhance_step :: "string list \<Rightarrow> string \<Rightarrow> string list \<Rightarrow> string list" where
  "enhance_step existingTags tag enhancedTags =
     (if tag \<in> set existingTags then set_add enhancedTags tag
      else let similarTags = findSimilarTags existingTags tag 2
           in if length similarTags > 0 then set_add enhancedTags (similarTags ! 0)
              else set_add enhancedTags tag)"

definition enhanceTagConsistency :: "string list \<Rightarrow> string list \<Rightarrow> string list" where
  "enhanceTagConsistency existingTags generatedTags =
     fold (enhance_step existingTags) generatedTags []"

section \<open>Front matter synthesis (FileUtils.createContentWithTags)\<close>

definition join_lines :: "string list \<Rightarrow> string" where
  "join_lines xs = (case xs of [] \<Rightarrow> [] | y # ys \<Rightarrow> y @ concat (map (\<lambda>z. [CHR 0x0A] @ z) ys))"

definition createContentWithTags :: "string \<Rightarrow> string list \<Rightarrow> string" where
  "createContentWithTags content tags =
     (if content = [] then []
      else if length tags = 0 then content
      else let tagsYaml =
                 (if length tags = 1 then ''tags: ['' @ tags ! 0 @ '']''
                  else ''tags:'' @ [CHR 0x0A] @ join_lines (map (\<lambda>tag. ''  - '' @ tag) tags))
           in ''---'' @ [CHR 0x0A] @ tagsYaml @ [CHR 0x0A] @ ''---'' @ [CHR 0x0A, CHR 0x0A] @ content)"

section \<open>The provider pool (ProviderFactory, src/providers/provider-factory.ts)\<close>

text \<open>
  \<open>ProviderFactory\<close> keeps its state in static fields; the model passes it explicitly.
  Every operation reads the clock (\<open>Date.now()\<close>, in milliseconds) and takes the reading
  as its first argument \<open>now\<close>. A provider object is its class and its identity: each
  \<open>new ClaudeProvider(...)\<close> or \<open>new OpenAIProvider(...)\<close> takes the next unused
  reference from \<open>nextRef\<close>, so that \<open>providerData.provider === provider\<close> is equality
  of the references. \<open>activeProviders\<close> is a JavaScript \<open>Map\<close>, iterated in insertion
  order: an association list with distinct keys. Logging is left out, and so is
  \<open>promptType\<close>, which has one value and is only handed on to the providers.
\<close>

datatype LLMProvider = CLAUDE | OPENAI

fun provider_name :: "LLMProvider \<Rightarrow> string" where
  "provider_name CLAUDE = ''claude''"
| "provider_name OPENAI = ''openai''"

record AIExcerptSettings =
  provider :: LLMProvider
  claudeApiKey :: string
  claudeModel :: string
  openaiApiKey :: string
  openaiModel :: string
  tagPrefix :: string

datatype provider_obj = ProviderObj (cls: LLMProvider) (ref: nat)

record provider_data =
  pd_provider :: provider_obj
  lastUsed :: nat
  pd_id :: string

record factory =
  providerCooldowns :: "LLMProvider \<Rightarrow> nat option"
  activeProviders :: "(string \<times> provider_data) list"
  failedProviders :: "LLMProvider set"
  nextRef :: nat

definition cooldownDuration :: nat where
  "cooldownDuration = 60000"

definition maxActiveProviders :: nat where
  "maxActiveProviders = 2"

definition initial_factory :: factory where
  "initial_factory =
     \<lparr>providerCooldowns = (\<lambda>_. None), activeProviders = [], failedProviders = {}, nextRef = 0\<rparr>"

text \<open>\<open>Map.set\<close> overwrites the value of a key in place and appends a new key.\<close>

fun map_set :: "(string \<times> 'v) list \<Rightarrow> string \<Rightarrow> 'v \<Rightarrow> (string \<times> 'v) list" where
  "map_set [] k v = [(k, v)]"
| "map_set ((k', v') # xs) k v = (if k' = k then (k, v) # xs else (k', v') # map_set xs k v)"

definition map_delete :: "(string \<times> 'v) list \<Rightarrow> string \<Rightarrow> (string \<times> 'v) list" where
  "map_delete xs k = filter (\<lambda>e. fst e \<noteq> k) xs"

text \<open>The decimal digits of a number, as a template literal prints \<open>Date.now()\<close>.\<close>

definition digit :: "nat \<Rightarrow> char" where
  "digit d = ''0123456789'' ! d"

fun digits :: "nat \<Rightarrow> string" where
  "digits n = (if n < 10 then [digit n] else digits (n div 10) @ [digit (n mod 10)])"

declare digits.simps [simp del]

definition isProviderInCooldown :: "nat \<Rightarrow> factory \<Rightarrow> LLMProvider \<Rightarrow> bool" where
  "isProviderInCooldown now st p =
     (case providerCooldowns st p of
        None \<Rightarrow> False
      | Some cooldownUntil \<Rightarrow> cooldownUntil \<noteq> 0 \<and> now < cooldownUntil)"

definition setProviderCooldown :: "nat \<Rightarrow> factory \<Rightarrow> LLMProvider \<Rightarrow> factory" where
  "setProviderCooldown now st p =
     st\<lparr>providerCooldowns := (providerCooldowns st)(p \<mapsto> now + cooldownDuration)\<rparr>"

definition reportProviderFailure :: "nat \<Rightarrow> factory \<Rightarrow> LLMProvider \<Rightarrow> factory" where
  "reportProviderFailure now st p =
     (let st' = setProviderCooldown now st p
      in st'\<lparr>failedProviders := insert p (failedProviders st')\<rparr>)"

definition getProviderId :: "AIExcerptSettings \<Rightarrow> string" where
  "getProviderId settings =
     provider_name (provider settings) @ ''-'' @
     (if provider settings = CLAUDE then claudeModel settings else openaiModel settings)"

text \<open>
  \<open>cleanupOldestProvider\<close>: \<open>oldestTime\<close> starts at \<open>Infinity\<close> (here \<open>None\<close>), and
  \<open>if (oldestId)\<close> also refuses the empty string.
\<close>

fun find_oldest ::
  "(string \<times> provider_data) list \<Rightarrow> string option \<Rightarrow> nat option \<Rightarrow> string option" where
  "find_oldest [] oldestId oldestTime = oldestId"
| "find_oldest ((k, providerData) # rest) oldestId oldestTime =
     (if (case oldestTime of None \<Rightarrow> True | Some t \<Rightarrow> lastUsed providerData < t)
      then find_oldest rest (Some k) (Some (lastUsed providerData))
      else find_oldest rest oldestId oldestTime)"

definition cleanupOldestProvider :: "factory \<Rightarrow> factory" where
  "cleanupOldestProvider st =
     (if length (activeProviders st) = 0 then st
      else case find_oldest (activeProviders st) None None of
             None \<Rightarrow> st
           | Some oldestId \<Rightarrow>
               if oldestId = [] then st
               else st\<lparr>activeProviders := map_delete (activeProviders st) oldestId\<rparr>)"

text \<open>
  \<open>getExistingProvider\<close> returns the first entry whose provider is an instance of the
  class of the requested kind, after stamping it with the time.
\<close>

fun touch_first ::
  "LLMProvider \<Rightarrow> nat \<Rightarrow> (string \<times> provider_data) list \<Rightarrow>
   provider_obj option \<times> (string \<times> provider_data) list" where
  "touch_first providerType now [] = (None, [])"
| "touch_first providerType now ((k, providerData) # rest) =
     (if cls (pd_provider providerData) = providerType
      then (Some (pd_provider providerData), (k, providerData\<lparr>lastUsed := now\<rparr>) # rest)
      else (case touch_first providerType now rest of
              (found, rest') \<Rightarrow> (found, (k, providerData) # rest')))"

definition getExistingProvider ::
  "nat \<Rightarrow> factory \<Rightarrow> LLMProvider \<Rightarrow> provider_obj option \<times> factory" where
  "getExistingProvider now st providerType =
     (case touch_first providerType now (activeProviders st) of
        (found, entries) \<Rightarrow> (found, st\<lparr>activeProviders := entries\<rparr>))"

text \<open>
  Constructing a provider and storing it under \<open>providerId\<close>, the step both
  \<open>createProvider\<close> and \<open>createFallbackProvider\<close> end with.
\<close>

definition store_new :: "nat \<Rightarrow> factory \<Rightarrow> LLMProvider \<Rightarrow> string \<Rightarrow> provider_obj \<times> factory" where
  "store_new now st kind providerId =
     (let obj = ProviderObj kind (nextRef st)
      in (obj,
          st\<lparr>activeProviders :=
                map_set (activeProviders st) providerId
                  \<lparr>pd_provider = obj, lastUsed = now, pd_id = providerId\<rparr>,
              nextRef := Suc (nextRef st)\<rparr>))"

record FallbackResult =
  fr_provider :: "provider_obj option"
  fallbackType :: "LLMProvider option"
  needsConfiguration :: bool
  success :: bool

definition createFallbackProvider ::
  "nat \<Rightarrow> factory \<Rightarrow> AIExcerptSettings \<Rightarrow> LLMProvider \<Rightarrow> FallbackResult \<times> factory" where
  "createFallbackProvider now st settings primaryProvider =
     (let result = \<lparr>fr_provider = None, fallbackType = None,
                    needsConfiguration = False, success = False\<rparr>
      in case primaryProvider of
           CLAUDE \<Rightarrow>
             (let result = result\<lparr>fallbackType := Some OPENAI\<rparr>
              in if isProviderInCooldown now st OPENAI then (result, st)
                 else if openaiApiKey settings \<noteq> [] then
                   (case store_new now st OPENAI
                           (provider_name OPENAI @ ''-fallback-'' @ digits now) of
                      (openaiProvider, st') \<Rightarrow>
                        (result\<lparr>fr_provider := Some openaiProvider, success := True\<rparr>, st'))
                 else (result\<lparr>needsConfiguration := True\<rparr>, st))
         | OPENAI \<Rightarrow>
             (let result = result\<lparr>fallbackType := Some CLAUDE\<rparr>
              in if isProviderInCooldown now st CLAUDE then (result, st)
                 else if claudeApiKey settings \<noteq> [] then
                   (case store_new now st CLAUDE
                           (provider_name CLAUDE @ ''-fallback-'' @ digits now) of
                      (claudeProvider, st') \<Rightarrow>
                        (result\<lparr>fr_provider := Some claudeProvider, success := True\<rparr>, st'))
                 else (result\<lparr>needsConfiguration := True\<rparr>, st)))"

text \<open>
  The part of \<open>createProvider\<close> after the bound check: the \<open>switch\<close> on the configured
  kind. The type \<open>LLMProvider\<close> has no third value, so the \<open>default\<close> branch has no
  counterpart.
\<close>

definition create_instance ::
  "nat \<Rightarrow> factory \<Rightarrow> AIExcerptSettings \<Rightarrow> provider_obj option \<times> factory" where
  "create_instance now st settings =
     (let providerId = getProviderId settings
      in case provider settings of
           CLAUDE \<Rightarrow>
             if claudeApiKey settings = [] then (None, st)
             else (case store_new now st CLAUDE providerId of
                     (claudeProvider, st') \<Rightarrow> (Some claudeProvider, st'))
         | OPENAI \<Rightarrow>
             if openaiApiKey settings = [] then (None, st)
             else (case store_new now st OPENAI providerId of
                     (openaiProvider, st') \<Rightarrow> (Some openaiProvider, st')))"

text \<open>
  The bound check of \<open>createProvider\<close>: at the bound, an existing provider of the
  requested kind is returned, and without one the oldest entry is removed first.
\<close>

definition make_room_or_reuse ::
  "nat \<Rightarrow> factory \<Rightarrow> AIExcerptSettings \<Rightarrow> provider_obj option \<times> factory" where
  "make_room_or_reuse now st settings =
     (if length (activeProviders st) \<ge> maxActiveProviders then
        (case getExistingProvider now st (provider settings) of
           (Some existingProvider, st') \<Rightarrow> (Some existingProvider, st')
         | (None, st') \<Rightarrow> create_instance now (cleanupOldestProvider st') settings)
      else create_instance now st settings)"

definition createProvider ::
  "nat \<Rightarrow> factory \<Rightarrow> AIExcerptSettings \<Rightarrow> provider_obj option \<times> factory" where
  "createProvider now st settings =
     (if provider settings \<in> failedProviders st then (None, st)
      else if isProviderInCooldown now st (provider settings) then
        (case createFallbackProvider now st settings (provider settings) of
           (fallbackResult, st') \<Rightarrow>
             (case fr_provider fallbackResult of
                Some p \<Rightarrow> (Some p, st')
              | None \<Rightarrow> make_room_or_reuse now st' settings))
      else make_room_or_reuse now st settings)"

fun release_first ::
  "provider_obj \<Rightarrow> nat \<Rightarrow> (string \<times> provider_data) list \<Rightarrow> (string \<times> provider_data) list" where
  "release_first p now [] = []"
| "release_first p now ((k, providerData) # rest) =
     (if pd_provider providerData = p then (k, providerData\<lparr>lastUsed := now\<rparr>) # rest
      else (k, providerData) # release_first p now rest)"

definition releaseProvider :: "nat \<Rightarrow> factory \<Rightarrow> provider_obj \<Rightarrow> factory" where
  "releaseProvider now st p = st\<lparr>activeProviders := release_first p now (activeProviders st)\<rparr>"

text \<open>A sequence of calls on the pool, each with the clock reading at which it is made.\<close>

datatype pool_op =
    CreateProvider AIExcerptSettings
  | CreateFallbackProvider AIExcerptSettings LLMProvider
  | ReleaseProvider provider_obj
  | ReportProviderFailure LLMProvider

fun apply_op :: "factory \<Rightarrow> nat \<times> pool_op \<Rightarrow> factory" where
  "apply_op st (now, CreateProvider settings) = snd (createProvider now st settings)"
| "apply_op st (now, CreateFallbackProvider settings primaryProvider) =
     snd (createFallbackProvider now st settings primaryProvider)"
| "apply_op st (now, ReleaseProvider p) = releaseProvider now st p"
| "apply_op st (now, ReportProviderFailure p) = reportProviderFailure now st p"

definition run_ops :: "factory \<Rightarrow> (nat \<times> pool_op) list \<Rightarrow> factory" where
  "run_ops st ops = foldl apply_op st ops"

section \<open>Tag formatting (FileProcessor.formatTags)\<close>

text \<open>
  Code units are the 256 values of \<open>char\<close> (ASCII and Latin-1). On these,
  \<open>toLowerCase\<close> moves \<open>A\<close> to \<open>Z\<close> and the Latin-1 capitals up by 32, and \<open>trim\<close>
  removes tab, line feed, vertical tab, form feed, carriage return, space and the
  no-break space from both ends.
\<close>

definition toLowerCase_char :: "char \<Rightarrow> char" where
  "toLowerCase_char c =
     (let n = (of_char c :: nat)
      in if (65 \<le> n \<and> n \<le> 90) \<or> (192 \<le> n \<and> n \<le> 222 \<and> n \<noteq> 215) then char_of (n + 32) else c)"

definition toLowerCase :: "string \<Rightarrow> string" where
  "toLowerCase s = map toLowerCase_char s"

definition is_space :: "char \<Rightarrow> bool" where
  "is_space c = (let n = (of_char c :: nat) in (9 \<le> n \<and> n \<le> 13) \<or> n = 32 \<or> n = 160)"

definition trim :: "string \<Rightarrow> string" where
  "trim s = rev (dropWhile is_space (rev (dropWhile is_space s)))"

text \<open>The character class \<open>[a-z0-9/\-]\<close>.\<close>

definition tag_char :: "char \<Rightarrow> bool" where
  "tag_char c =
     (let n = (of_char c :: nat)
      in (97 \<le> n \<and> n \<le> 122) \<or> (48 \<le> n \<and> n \<le> 57) \<or> n = 47 \<or> n = 45)"

text \<open>\<open>replace(/[^a-z0-9/\-]/g, "-")\<close>\<close>

definition replace_disallowed :: "string \<Rightarrow> string" where
  "replace_disallowed s = map (\<lambda>c. if tag_char c then c else CHR ''-'') s"

text \<open>\<open>replace(/-+/g, "-")\<close>: every maximal run of hyphens becomes one hyphen.\<close>

fun collapse_hyphens :: "string \<Rightarrow> string" where
  "collapse_hyphens [] = []"
| "collapse_hyphens [c] = [c]"
| "collapse_hyphens (c # d # cs) =
     (if c = CHR ''-'' \<and> d = CHR ''-'' then collapse_hyphens (d # cs)
      else c # collapse_hyphens (d # cs))"

text \<open>
  \<open>replace(/^-|-$/g, "")\<close>: a hyphen at the start is removed, and then a hyphen at the
  end of what follows it.
\<close>

definition strip_lead :: "string \<Rightarrow> string" where
  "strip_lead s = (case s of [] \<Rightarrow> [] | c # cs \<Rightarrow> if c = CHR ''-'' then cs else c # cs)"

definition strip_trail :: "string \<Rightarrow> string" where
  "strip_trail s = (if s \<noteq> [] \<and> last s = CHR ''-'' then butlast s else s)"

definition formattedTag :: "string \<Rightarrow> string" where
  "formattedTag tag =
     strip_trail (strip_lead (collapse_hyphens (replace_disallowed (trim (toLowerCase tag)))))"

definition formatTags :: "AIExcerptSettings \<Rightarrow> string list \<Rightarrow> string list" where
  "formatTags settings tags = map (\<lambda>tag. tagPrefix settings @ formattedTag tag) tags"

section \<open>Processing one document (FileProcessor.processFile)\<close>

text \<open>
  \<open>FRONTMATTER_REGEX\<close> is \<open>/^---\n([\s\S]*?)\n---/\<close>: the content starts with three
  hyphens and a line feed, and the lazy group ends at the first line feed followed by
  three hyphens after that. \<open>extractFrontmatter\<close> gives the group, and
  \<open>content.replace(FRONTMATTER_REGEX, "")\<close> what follows the match.
\<close>

fun split_at_close :: "string \<Rightarrow> (string \<times> string) option" where
  "split_at_close [] = None"
| "split_at_close (c # cs) =
     (if take 4 (c # cs) = [CHR 0x0A, CHR ''-'', CHR ''-'', CHR ''-''] then Some ([], drop 4 (c # cs))
      else (case split_at_close cs of
              None \<Rightarrow> None
            | Some (frontmatter, rest) \<Rightarrow> Some (c # frontmatter, rest)))"

definition extractFrontmatter :: "string \<Rightarrow> (string \<times> string) option" where
  "extractFrontmatter content =
     (if content = [] then None
      else if take 4 content = [CHR ''-'', CHR ''-'', CHR ''-'', CHR 0x0A]
      then split_at_close (drop 4 content)
      else None)"

text \<open>
  What the collaborators answer during one run of \<open>processFile\<close>: the clock readings
  when the provider is acquired, when a failure is handled and when a provider is
  released; the text \<open>vault.read\<close> resolves with (\<open>None\<close>: it rejects); the tags
  \<open>generateTags\<close> of a provider resolves with for a text (\<open>None\<close>: it rejects); the tags
  of the vault; whether \<open>vault.process\<close> resolves, and whether the first and the second
  call of \<open>fileManager.processFrontMatter\<close> resolve.

  What the run does to its collaborators is recorded in a trace, in order. Notices and
  console output are left out, and with them \<open>showNotices\<close> and \<open>hasTags\<close>, which only
  choose the text of a notice.
\<close>

record TFile =
  extension :: string

record run_env =
  tAcquire :: nat
  tFailure :: nat
  tRelease :: nat
  readResult :: "string option"
  tagsFrom :: "provider_obj \<Rightarrow> string \<Rightarrow> string list option"
  vaultTags :: "string list"
  processOk :: bool
  frontMatterOk :: bool
  frontMatterRetryOk :: bool

datatype event =
    GenerateTags provider_obj string
  | VaultProcess string
  | ProcessFrontMatter "string list"
  | ReportFailure LLMProvider
  | Release provider_obj

record run_state =
  pool :: factory
  trace :: "event list"

datatype outcome = Resolved | Rejected

definition emit :: "event \<Rightarrow> run_state \<Rightarrow> run_state" where
  "emit e rs = rs\<lparr>trace := trace rs @ [e]\<rparr>"

definition release :: "run_env \<Rightarrow> provider_obj \<Rightarrow> run_state \<Rightarrow> run_state" where
  "release env p rs = emit (Release p) (rs\<lparr>pool := releaseProvider (tRelease env) (pool rs) p\<rparr>)"

text \<open>
  The first three statements of each \<open>try\<close> block: \<open>generateTags\<close>,
  \<open>enhanceTagConsistency\<close> and \<open>formatTags\<close>. On tags of the declared type (an array
  of strings) only \<open>generateTags\<close> can throw.
\<close>

definition generate_formatted ::
  "AIExcerptSettings \<Rightarrow> run_env \<Rightarrow> provider_obj \<Rightarrow> string \<Rightarrow> string list option" where
  "generate_formatted settings env p text =
     (case tagsFrom env p text of
        None \<Rightarrow> None
      | Some tags \<Rightarrow> Some (formatTags settings (enhanceTagConsistency (vaultTags env) tags)))"

text \<open>The branch for a document without front matter, with its own \<open>try\<close> and \<open>catch\<close>.\<close>

definition without_frontmatter ::
  "AIExcerptSettings \<Rightarrow> run_env \<Rightarrow> provider_obj \<Rightarrow> string \<Rightarrow> run_state \<Rightarrow> run_state" where
  "without_frontmatter settings env p content rs =
     (let rs = emit (GenerateTags p content) rs
      in case generate_formatted settings env p content of
           None \<Rightarrow> release env p rs
         | Some formattedTags \<Rightarrow>
             if processOk env
             then release env p (emit (VaultProcess (createContentWithTags content formattedTags)) rs)
             else release env p rs)"

text \<open>The \<open>try\<close> block of the fallback provider, with its \<open>catch\<close>.\<close>

definition with_fallback ::
  "AIExcerptSettings \<Rightarrow> run_env \<Rightarrow> provider_obj \<Rightarrow> string \<Rightarrow> run_state \<Rightarrow> run_state" where
  "with_fallback settings env fallback text rs =
     (let rs = emit (GenerateTags fallback text) rs
      in case generate_formatted settings env fallback text of
           None \<Rightarrow> release env fallback rs
         | Some formattedTags \<Rightarrow>
             if frontMatterRetryOk env
             then release env fallback (emit (ProcessFrontMatter formattedTags) rs)
             else release env fallback rs)"

text \<open>The \<open>catch (providerError)\<close> block.\<close>

definition on_provider_error ::
  "AIExcerptSettings \<Rightarrow> run_env \<Rightarrow> string \<Rightarrow> run_state \<Rightarrow> run_state" where
  "on_provider_error settings env text rs =
     (let rs = emit (ReportFailure (provider settings))
                 (rs\<lparr>pool := reportProviderFailure (tFailure env) (pool rs) (provider settings)\<rparr>)
      in case createFallbackProvider (tFailure env) (pool rs) settings (provider settings) of
           (fallbackResult, st') \<Rightarrow>
             (let rs = rs\<lparr>pool := st'\<rparr>
              in case fr_provider fallbackResult of
                   Some fallback \<Rightarrow>
                     if success fallbackResult then with_fallback settings env fallback text rs
                     else rs
                 | None \<Rightarrow> rs))"

text \<open>The branch for a document with front matter.\<close>

definition with_frontmatter ::
  "AIExcerptSettings \<Rightarrow> run_env \<Rightarrow> provider_obj \<Rightarrow> string \<Rightarrow> run_state \<Rightarrow> run_state" where
  "with_frontmatter settings env p contentWithoutFrontmatter rs =
     (let rs = emit (GenerateTags p contentWithoutFrontmatter) rs
      in case generate_formatted settings env p contentWithoutFrontmatter of
           None \<Rightarrow> on_provider_error settings env contentWithoutFrontmatter rs
         | Some formattedTags \<Rightarrow>
             if frontMatterOk env
             then release env p (emit (ProcessFrontMatter formattedTags) rs)
             else on_provider_error settings env contentWithoutFrontmatter rs)"

text \<open>
  The outer \<open>try\<close> block: \<open>Inl\<close> is an exception that reaches the outer \<open>catch\<close>. Only
  \<open>vault.read\<close> can raise one, the inner blocks catch their own.
\<close>

datatype error = ReadError

definition process_body ::
  "AIExcerptSettings \<Rightarrow> run_env \<Rightarrow> provider_obj \<Rightarrow> run_state \<Rightarrow> error + run_state" where
  "process_body settings env p rs =
     (case readResult env of
        None \<Rightarrow> Inl ReadError
      | Some content \<Rightarrow>
          (case extractFrontmatter content of
             None \<Rightarrow> Inr (without_frontmatter settings env p content rs)
           | Some (frontmatter, contentWithoutFrontmatter) \<Rightarrow>
               Inr (with_frontmatter settings env p contentWithoutFrontmatter rs)))"

definition processFile ::
  "AIExcerptSettings \<Rightarrow> run_env \<Rightarrow> run_state \<Rightarrow> TFile \<Rightarrow> outcome \<times> run_state" where
  "processFile settings env rs file =
     (if extension file \<noteq> ''md'' then (Resolved, rs)
      else case createProvider (tAcquire env) (pool rs) settings of
             (None, st') \<Rightarrow> (Resolved, rs\<lparr>pool := st'\<rparr>)
           | (Some p, st') \<Rightarrow>
               (case process_body settings env p (rs\<lparr>pool := st'\<rparr>) of
                  Inr rs' \<Rightarrow> (Resolved, rs')
                | Inl e \<Rightarrow> (Resolved, release env p (rs\<lparr>pool := st'\<rparr>))))"

section \<open>Batches (FileProcessor.processAllFiles, FileProcessor.processDirectory)\<close>

text \<open>
  The two batch loops are the same code. The call \<open>this.processFile(file, false)\<close> is a
  parameter \<open>pf\<close> that takes the state the documents share and says whether the promise
  resolved or rejected. The status bar and the notices only display the counts and are
  left out; \<open>attempts\<close> lists the documents \<open>pf\<close> was called on and \<open>delays\<close> counts the
  two-second waits between batches.
\<close>

record ('f, 'st) batch =
  processed :: nat
  errors :: nat
  attempts :: "'f list"
  delays :: nat
  carried :: 'st

definition batchSize :: nat where
  "batchSize = 5"

definition process_one :: "('st \<Rightarrow> 'f \<Rightarrow> outcome \<times> 'st) \<Rightarrow> 'f \<Rightarrow> ('f, 'st) batch \<Rightarrow> ('f, 'st) batch" where
  "process_one pf file b =
     (case pf (carried b) file of
        (Resolved, st') \<Rightarrow>
          b\<lparr>processed := processed b + 1, attempts := attempts b @ [file], carried := st'\<rparr>
      | (Rejected, st') \<Rightarrow>
          b\<lparr>errors := errors b + 1, attempts := attempts b @ [file], carried := st'\<rparr>)"

function run_batches ::
  "('st \<Rightarrow> 'f \<Rightarrow> outcome \<times> 'st) \<Rightarrow> 'f list \<Rightarrow> nat \<Rightarrow> ('f, 'st) batch \<Rightarrow> ('f, 'st) batch" where
  "run_batches pf files i b =
     (if i < length files then
        (let batch = take batchSize (drop i files);
             b = fold (process_one pf) batch b;
             b = (if i + batchSize < length files then b\<lparr>delays := delays b + 1\<rparr> else b)
         in run_batches pf files (i + batchSize) b)
      else b)"
  by pat_completeness auto
termination
  by (relation "measure (\<lambda>(pf, files, i, b). length files - i)") (auto simp: batchSize_def)

definition start_batch :: "'st \<Rightarrow> ('f, 'st) batch" where
  "start_batch st = \<lparr>processed = 0, errors = 0, attempts = [], delays = 0, carried = st\<rparr>"

definition processAllFiles ::
  "('st \<Rightarrow> 'f \<Rightarrow> outcome \<times> 'st) \<Rightarrow> 'st \<Rightarrow> 'f list \<Rightarrow> ('f, 'st) batch" where
  "processAllFiles pf st files = run_batches pf files 0 (start_batch st)"





text \<open>
  The batch loop over the real \<open>processFile\<close>: a document comes with what the
  collaborators answer during its run.
\<close>

definition process_document ::
  "AIExcerptSettings \<Rightarrow> run_state \<Rightarrow> TFile \<times> run_env \<Rightarrow> outcome \<times> run_state" where
  "process_document settings rs doc = processFile settings (snd doc) rs (fst doc)"

section \<open>Auxiliary notions for the proofs\<close>

text \<open>The events of a run that write the document, in order.\<close>

fun is_rewrite :: "event \<Rightarrow> bool" where
  "is_rewrite (VaultProcess content) = True"
| "is_rewrite (ProcessFrontMatter tags) = True"
| "is_rewrite e = False"

definition written :: "run_state \<Rightarrow> event list" where
  "written rs = filter is_rewrite (trace rs)"


text \<open>
  The shape of the matrix, and how far the loops of \<open>levenshteinDistance\<close> have filled
  it with the values of \<open>lev_prefix\<close>: the first row and column, the rows before \<open>J\<close> and
  the cells of row \<open>J\<close> before column \<open>I\<close>.
\<close>

definition shaped :: "nat list list \<Rightarrow> nat \<Rightarrow> nat \<Rightarrow> bool" where
  "shaped m la lb \<longleftrightarrow> length m = lb + 1 \<and> (\<forall>j \<le> lb. length (m ! j) = la + 1)"

definition filled :: "'a list \<Rightarrow> 'a list \<Rightarrow> nat list list \<Rightarrow> nat \<Rightarrow> nat \<Rightarrow> bool" where
  "filled a b m J I \<longleftrightarrow>
     shaped m (length a) (length b) \<and>
     (\<forall>j i. j \<le> length b \<and> i \<le> length a \<and> (j = 0 \<or> i = 0 \<or> j < J \<or> (j = J \<and> i < I))
        \<longrightarrow> cell m j i = lev_prefix a b i j)"

text \<open>
  A formatted tag: only characters of the class, no two hyphens in a row, no hyphen at
  either end.
\<close>

fun no_double :: "string \<Rightarrow> bool" where
  "no_double [] = True"
| "no_double [c] = True"
| "no_double (c # d # cs) = (\<not> (c = CHR ''-'' \<and> d = CHR ''-'') \<and> no_double (d # cs))"

definition normalized :: "string \<Rightarrow> bool" where
  "normalized t \<longleftrightarrow>
     (\<forall>c \<in> set t. tag_char c) \<and> no_double t \<and>
     (\<forall>cs. t \<noteq> CHR ''-'' # cs) \<and> (\<forall>cs. t \<noteq> cs @ [CHR ''-''])"

text \<open>
  The kind \<open>createFallbackProvider\<close> falls back to, and the API key the settings hold for
  a kind.
\<close>

definition fallback_kind :: "LLMProvider \<Rightarrow> LLMProvider" where
  "fallback_kind primaryProvider = (case primaryProvider of CLAUDE \<Rightarrow> OPENAI | OPENAI \<Rightarrow> CLAUDE)"

definition api_key :: "AIExcerptSettings \<Rightarrow> LLMProvider \<Rightarrow> string" where
  "api_key settings kind =
     (case kind of CLAUDE \<Rightarrow> claudeApiKey settings | OPENAI \<Rightarrow> openaiApiKey settings)"

section \<open>Concrete inputs\<close>

text \<open>
  Settings with a key for Claude only, with keys for both kinds, and with no key at all;
  the same with OpenAI as the configured kind; settings with the tag prefixes \<open>ab\<close> and
  \<open>#\<close>.
\<close>

definition claude_only :: AIExcerptSettings where
  "claude_only =
     \<lparr>provider = CLAUDE, claudeApiKey = ''key-a'', claudeModel = ''m'',
      openaiApiKey = [], openaiModel = ''g'', tagPrefix = []\<rparr>"

definition both_keys :: AIExcerptSettings where
  "both_keys = claude_only\<lparr>openaiApiKey := ''key-o''\<rparr>"

definition both_keys_openai :: AIExcerptSettings where
  "both_keys_openai = both_keys\<lparr>provider := OPENAI\<rparr>"

definition no_keys :: AIExcerptSettings where
  "no_keys = claude_only\<lparr>claudeApiKey := []\<rparr>"

definition prefix_ab :: AIExcerptSettings where
  "prefix_ab = claude_only\<lparr>tagPrefix := ''ab''\<rparr>"

definition prefix_hash :: AIExcerptSettings where
  "prefix_hash = claude_only\<lparr>tagPrefix := ''#''\<rparr>"

text \<open>
  A markdown file and two runs: one reads a document with front matter and every
  \<open>generateTags\<close> rejects; the other reads a document without front matter, the Claude
  provider rejects and an OpenAI provider would answer.
\<close>

definition md_file :: TFile where
  "md_file = \<lparr>extension = ''md''\<rparr>"

definition doc_with_frontmatter :: string where
  "doc_with_frontmatter = ''---\<newline>title: x\<newline>---\<newline>body''"

definition run_all_reject :: run_env where
  "run_all_reject =
     \<lparr>tAcquire = 1000, tFailure = 2000, tRelease = 3000,
      readResult = Some doc_with_frontmatter,
      tagsFrom = (\<lambda>p text. None), vaultTags = [],
      processOk = True, frontMatterOk = True, frontMatterRetryOk = True\<rparr>"

definition run_plain_claude_rejects :: run_env where
  "run_plain_claude_rejects =
     \<lparr>tAcquire = 1000, tFailure = 2000, tRelease = 3000,
      readResult = Some ''body'',
      tagsFrom = (\<lambda>p text. if cls p = OPENAI then Some [''x''] else None), vaultTags = [],
      processOk = True, frontMatterOk = True, frontMatterRetryOk = True\<rparr>"

definition fresh :: run_state where
  "fresh = \<lparr>pool = initial_factory, trace = []\<rparr>"

text \<open>A file that is not markdown, and a run in which \<open>vault.read\<close> rejects.\<close>

definition txt_file :: TFile where
  "txt_file = \<lparr>extension = ''txt''\<rparr>"

definition run_read_rejects :: run_env where
  "run_read_rejects = run_all_reject\<lparr>readResult := None\<rparr>"

text \<open>
  A sequence of pool calls: Claude is created and fails, OpenAI is created as its
  fallback; seventy seconds later OpenAI is the configured kind, is handed out, fails,
  and Claude is created as its fallback.
\<close>

definition switch_and_fail :: "(nat \<times> pool_op) list" where
  "switch_and_fail =
     [(1000, CreateProvider both_keys),
      (2000, ReportProviderFailure CLAUDE),
      (2000, CreateFallbackProvider both_keys CLAUDE),
      (70000, CreateProvider both_keys_openai),
      (71000, ReportProviderFailure OPENAI),
      (71000, CreateFallbackProvider both_keys_openai OPENAI)]"




section \<open>The distance is the Levenshtein distance\<close>


lemma fold_upt_invariant:
  assumes "lo \<le> hi" and "P lo s"
    and "\<And>k t. lo \<le> k \<Longrightarrow> k < hi \<Longrightarrow> P k t \<Longrightarrow> P (Suc k) (f k t)"
  shows "P hi (fold f [lo..<hi] s)"
  using assms
proof (induction hi)
  case 0
  then show ?case by simp
next
  case (Suc hi)
  show ?case
  proof (cases "lo = Suc hi")
    case True
    with Suc.prems(2) show ?thesis by simp
  next
    case False
    with Suc.prems(1) have le: "lo \<le> hi" by simp
    have "P hi (fold f [lo..<hi] s)"
      using Suc.IH [OF le Suc.prems(2)] Suc.prems(3) by simp
    then have "P (Suc hi) (f hi (fold f [lo..<hi] s))"
      using Suc.prems(3) [of hi] le by simp
    with le show ?thesis by simp
  qed
qed

lemma nth_update_if: "xs[i := x] ! j = (if i = j \<and> i < length xs then x else xs ! j)"
  by (cases "i < length xs") (simp_all add: nth_list_update list_update_beyond)

lemma shaped_set_cell: "shaped m la lb \<Longrightarrow> shaped (set_cell m j i v) la lb"
  by (simp add: shaped_def set_cell_def nth_update_if)

lemma cell_set_cell:
  "shaped m la lb \<Longrightarrow> j \<le> lb \<Longrightarrow> i \<le> la \<Longrightarrow>
   cell (set_cell m j i v) j' i' = (if j' = j \<and> i' = i then v else cell m j' i')"
  by (simp add: shaped_def set_cell_def cell_def nth_update_if)

lemma lev_prefix_0_right [simp]: "lev_prefix a b i 0 = i"
  by (cases i) simp_all

lemma shaped_replicate: "shaped (replicate (Suc lb) (replicate (Suc la) 0)) la lb"
  by (simp add: shaped_def del: replicate.simps)

lemma init_first_row:
  "n \<le> Suc la \<Longrightarrow> shaped m la lb \<Longrightarrow>
   shaped (fold (\<lambda>i m. set_cell m 0 i i) [0..<n] m) la lb \<and>
   (\<forall>i < n. cell (fold (\<lambda>i m. set_cell m 0 i i) [0..<n] m) 0 i = i)"
proof (induction n)
  case 0
  then show ?case by simp
next
  case (Suc n)
  then show ?case
    by (auto simp: shaped_set_cell cell_set_cell less_Suc_eq)
qed

lemma init_first_column:
  "n \<le> Suc lb \<Longrightarrow> shaped m la lb \<Longrightarrow>
   shaped (fold (\<lambda>j m. set_cell m j 0 j) [0..<n] m) la lb \<and>
   (\<forall>j < n. cell (fold (\<lambda>j m. set_cell m j 0 j) [0..<n] m) j 0 = j) \<and>
   (\<forall>i. 0 < i \<longrightarrow> cell (fold (\<lambda>j m. set_cell m j 0 j) [0..<n] m) 0 i = cell m 0 i)"
proof (induction n)
  case 0
  then show ?case by simp
next
  case (Suc n)
  then show ?case
    by (auto simp: shaped_set_cell cell_set_cell less_Suc_eq)
qed

lemma filled_init: "filled a b (init_matrix a b) 1 1"
proof -
  let ?la = "length a" and ?lb = "length b"
  let ?m0 = "replicate (Suc ?lb) (replicate (Suc ?la) (0::nat))"
  let ?m1 = "fold (\<lambda>i m. set_cell m 0 i i) [0..<Suc ?la] ?m0"
  let ?m2 = "fold (\<lambda>j m. set_cell m j 0 j) [0..<Suc ?lb] ?m1"
  have r: "shaped ?m1 ?la ?lb \<and> (\<forall>i < Suc ?la. cell ?m1 0 i = i)"
    by (rule init_first_row, simp, rule shaped_replicate)
  then have c: "shaped ?m2 ?la ?lb \<and> (\<forall>j < Suc ?lb. cell ?m2 j 0 = j) \<and>
      (\<forall>i. 0 < i \<longrightarrow> cell ?m2 0 i = cell ?m1 0 i)"
    by (intro init_first_column) simp_all
  have m: "init_matrix a b = ?m2"
    by (simp add: init_matrix_def Let_def)
  show ?thesis
    unfolding filled_def m
  proof (intro conjI allI impI)
    show "shaped ?m2 ?la ?lb" using c by simp
  next
    fix j i
    assume h: "j \<le> ?lb \<and> i \<le> ?la \<and> (j = 0 \<or> i = 0 \<or> j < 1 \<or> j = 1 \<and> i < 1)"
    show "cell ?m2 j i = lev_prefix a b i j"
    proof (cases "i = 0")
      case True
      with h c show ?thesis by simp
    next
      case False
      with h have "j = 0" by auto
      with False h c r show ?thesis by simp
    qed
  qed
qed

lemma filled_fill_cell:
  assumes "filled a b m J I" and "1 \<le> J" and "J \<le> length b" and "1 \<le> I" and "I \<le> length a"
  shows "filled a b (fill_cell a b J m I) J (Suc I)"
proof -
  obtain J' I' where J: "J = Suc J'" and I: "I = Suc I'"
    using assms(2,4) by (cases J; cases I) auto
  have sh: "shaped m (length a) (length b)" using assms(1) by (simp add: filled_def)
  have old: "\<And>j i. j \<le> length b \<Longrightarrow> i \<le> length a \<Longrightarrow> j = 0 \<or> i = 0 \<or> j < J \<or> (j = J \<and> i < I)
     \<Longrightarrow> cell m j i = lev_prefix a b i j"
    using assms(1) by (simp add: filled_def)
  have left: "cell m J I' = lev_prefix a b I' J"
    using old [of J I'] assms(3,5) I by simp
  have up: "cell m J' I = lev_prefix a b I J'"
    using old [of J' I] assms(3,5) J by simp
  have diag: "cell m J' I' = lev_prefix a b I' J'"
    using old [of J' I'] assms(3,5) I J by simp
  have new: "cell (fill_cell a b J m I) J I = lev_prefix a b I J"
    using left up diag assms(3,5)
    by (simp add: fill_cell_def cell_set_cell [OF sh] I J substitutionCost_def)
  have keep: "\<And>j i. \<not> (j = J \<and> i = I) \<Longrightarrow> cell (fill_cell a b J m I) j i = cell m j i"
    using assms(3,5) by (auto simp: fill_cell_def cell_set_cell [OF sh])
  show ?thesis
    unfolding filled_def
  proof (intro conjI allI impI)
    show "shaped (fill_cell a b J m I) (length a) (length b)"
      using sh by (simp add: fill_cell_def shaped_set_cell)
  next
    fix j i
    assume h: "j \<le> length b \<and> i \<le> length a \<and> (j = 0 \<or> i = 0 \<or> j < J \<or> j = J \<and> i < Suc I)"
    show "cell (fill_cell a b J m I) j i = lev_prefix a b i j"
    proof (cases "j = J \<and> i = I")
      case True
      with new show ?thesis by simp
    next
      case False
      with h have "j = 0 \<or> i = 0 \<or> j < J \<or> (j = J \<and> i < I)" by auto
      with h old [of j i] keep [OF False] show ?thesis by simp
    qed
  qed
qed

lemma filled_next_row: "filled a b m J (Suc (length a)) \<Longrightarrow> filled a b m (Suc J) 1"
  unfolding filled_def
proof (intro conjI allI impI)
  assume h: "shaped m (length a) (length b) \<and>
    (\<forall>j i. j \<le> length b \<and> i \<le> length a \<and>
       (j = 0 \<or> i = 0 \<or> j < J \<or> j = J \<and> i < Suc (length a)) \<longrightarrow>
       cell m j i = lev_prefix a b i j)"
  then show "shaped m (length a) (length b)" by simp
  fix j i
  assume g: "j \<le> length b \<and> i \<le> length a \<and> (j = 0 \<or> i = 0 \<or> j < Suc J \<or> j = Suc J \<and> i < 1)"
  then have "j = 0 \<or> i = 0 \<or> j < J \<or> j = J \<and> i < Suc (length a)" by auto
  with g h show "cell m j i = lev_prefix a b i j" by blast
qed

lemma filled_fill_row:
  assumes "filled a b m J 1" and "1 \<le> J" and "J \<le> length b"
  shows "filled a b (fill_row a b m J) (Suc J) 1"
proof -
  have "filled a b (fold (\<lambda>i m'. fill_cell a b J m' i) [1..<Suc (length a)] m) J (Suc (length a))"
    by (rule fold_upt_invariant [where P = "\<lambda>i m. filled a b m J i"])
       (use assms in \<open>auto intro: filled_fill_cell\<close>)
  then have "filled a b (fill_row a b m J) J (Suc (length a))"
    by (simp add: fill_row_def)
  then show ?thesis by (rule filled_next_row)
qed

lemma filled_all_rows:
  "filled a b (fold (\<lambda>j m. fill_row a b m j) [1..<Suc (length b)] (init_matrix a b)) (Suc (length b)) 1"
proof (rule fold_upt_invariant [where P = "\<lambda>j m. filled a b m j 1"])
  show "1 \<le> Suc (length b)" by simp
  show "filled a b (init_matrix a b) 1 1" by (rule filled_init)
next
  fix k t
  assume "1 \<le> k" "k < Suc (length b)" "filled a b t k 1"
  then show "filled a b (fill_row a b t k) (Suc k) 1"
    by (intro filled_fill_row) simp_all
qed

lemma levenshteinDistance_eq: "levenshteinDistance a b = levenshtein_spec a b"
proof (cases "length a = 0 \<or> length b = 0")
  case True
  then show ?thesis by (auto simp: levenshteinDistance_def levenshtein_spec_def)
next
  case False
  have "cell (fold (\<lambda>j m. fill_row a b m j) [1..<Suc (length b)] (init_matrix a b)) (length b) (length a)
        = lev_prefix a b (length a) (length b)"
    using filled_all_rows [of a b] by (simp add: filled_def)
  with False show ?thesis by (simp add: levenshteinDistance_def levenshtein_spec_def)
qed


subsection \<open>The recurrence gives the least number of edits\<close>

lemma lev_prefix_append:
  "a = xs @ xs' \<Longrightarrow> b = ys @ ys' \<Longrightarrow> i \<le> length xs \<Longrightarrow> j \<le> length ys \<Longrightarrow>
   lev_prefix a b i j = lev_prefix xs ys i j"
  by (induction a b i j rule: lev_prefix.induct) (simp_all add: nth_append)

lemma edits_insert_all: "j \<le> length b \<Longrightarrow> edits [] (take j b) j"
proof (induction j)
  case 0
  show ?case by (simp add: edits.finished)
next
  case (Suc j)
  then have "edits [] (take j b) j" by simp
  then have "edits [] (take j b @ [b ! j]) (Suc j)" by (rule edits.insert)
  with Suc.prems show ?case by (simp add: take_Suc_conv_app_nth)
qed

lemma edits_delete_all: "i \<le> length a \<Longrightarrow> edits (take i a) [] i"
proof (induction i)
  case 0
  show ?case by (simp add: edits.finished)
next
  case (Suc i)
  then have "edits (take i a) [] i" by simp
  then have "edits (take i a @ [a ! i]) [] (Suc i)" by (rule edits.delete)
  with Suc.prems show ?case by (simp add: take_Suc_conv_app_nth)
qed

lemma edits_lev_prefix:
  "i \<le> length a \<Longrightarrow> j \<le> length b \<Longrightarrow> edits (take i a) (take j b) (lev_prefix a b i j)"
proof (induction a b i j rule: lev_prefix.induct)
  case (1 a b j)
  then show ?case by (simp add: edits_insert_all)
next
  case (2 a b i)
  then show ?case using edits_delete_all [of "Suc i" a] by simp
next
  case (3 a b i j)
  let ?A = "take i a" and ?B = "take j b"
  have ta: "take (Suc i) a = ?A @ [a ! i]" and tb: "take (Suc j) b = ?B @ [b ! j]"
    using "3.prems" by (simp_all add: take_Suc_conv_app_nth)
  have d: "edits (take (Suc i) a) (take (Suc j) b) (lev_prefix a b i (Suc j) + 1)"
    using "3.IH"(1) "3.prems" edits.delete [of ?A "take (Suc j) b" _ "a ! i"] by (simp add: ta)
  have n: "edits (take (Suc i) a) (take (Suc j) b) (lev_prefix a b (Suc i) j + 1)"
    using "3.IH"(2) "3.prems" edits.insert [of "take (Suc i) a" ?B _ "b ! j"] by (simp add: tb)
  have s: "edits (take (Suc i) a) (take (Suc j) b) (lev_prefix a b i j + (if a ! i = b ! j then 0 else 1))"
  proof (cases "a ! i = b ! j")
    case True
    have "edits (?A @ [a ! i]) (?B @ [a ! i]) (lev_prefix a b i j)"
      using "3.IH"(3) "3.prems" by (intro edits.keep) simp
    with True show ?thesis by (simp add: ta tb)
  next
    case False
    have "edits (?A @ [a ! i]) (?B @ [b ! j]) (Suc (lev_prefix a b i j))"
      using "3.IH"(3) "3.prems" by (intro edits.substitute) simp
    with False show ?thesis by (simp add: ta tb)
  qed
  show ?case
    using d n s by (simp add: min_def)
qed

lemma lev_prefix_delete: "lev_prefix a b (Suc i) j \<le> lev_prefix a b i j + 1"
  by (cases j) simp_all

lemma lev_prefix_insert: "lev_prefix a b i (Suc j) \<le> lev_prefix a b i j + 1"
  by (cases i) simp_all

lemma lev_prefix_substitute: "lev_prefix a b (Suc i) (Suc j) \<le> lev_prefix a b i j + 1"
proof -
  have "lev_prefix a b (Suc i) (Suc j) \<le> lev_prefix a b i j + (if a ! i = b ! j then 0 else 1)"
    by simp
  also have "\<dots> \<le> lev_prefix a b i j + 1" by simp
  finally show ?thesis .
qed

lemma lev_prefix_le_edits: "edits xs ys n \<Longrightarrow> lev_prefix xs ys (length xs) (length ys) \<le> n"
proof (induction rule: edits.induct)
  case finished
  show ?case by simp
next
  case (delete xs ys n x)
  have "lev_prefix (xs @ [x]) ys (Suc (length xs)) (length ys) \<le>
      lev_prefix (xs @ [x]) ys (length xs) (length ys) + 1"
    by (rule lev_prefix_delete)
  also have "lev_prefix (xs @ [x]) ys (length xs) (length ys) = lev_prefix xs ys (length xs) (length ys)"
    by (rule lev_prefix_append [where xs' = "[x]" and ys' = "[]"]) simp_all
  finally show ?case using delete.IH by simp
next
  case (insert xs ys n y)
  have "lev_prefix xs (ys @ [y]) (length xs) (Suc (length ys)) \<le>
      lev_prefix xs (ys @ [y]) (length xs) (length ys) + 1"
    by (rule lev_prefix_insert)
  also have "lev_prefix xs (ys @ [y]) (length xs) (length ys) = lev_prefix xs ys (length xs) (length ys)"
    by (rule lev_prefix_append [where xs' = "[]" and ys' = "[y]"]) simp_all
  finally show ?case using insert.IH by simp
next
  case (keep xs ys n x)
  have "lev_prefix (xs @ [x]) (ys @ [x]) (Suc (length xs)) (Suc (length ys)) \<le>
      lev_prefix (xs @ [x]) (ys @ [x]) (length xs) (length ys)"
    by simp
  also have "\<dots> = lev_prefix xs ys (length xs) (length ys)"
    by (rule lev_prefix_append [where xs' = "[x]" and ys' = "[x]"]) simp_all
  finally show ?case using keep.IH by simp
next
  case (substitute xs ys n x y)
  have "lev_prefix (xs @ [x]) (ys @ [y]) (Suc (length xs)) (Suc (length ys)) \<le>
      lev_prefix (xs @ [x]) (ys @ [y]) (length xs) (length ys) + 1"
    by (rule lev_prefix_substitute)
  also have "lev_prefix (xs @ [x]) (ys @ [y]) (length xs) (length ys) = lev_prefix xs ys (length xs) (length ys)"
    by (rule lev_prefix_append [where xs' = "[x]" and ys' = "[y]"]) simp_all
  finally show ?case using substitute.IH by simp
qed

lemma levenshtein_spec_least: "levenshtein_spec a b = (LEAST n. edits a b n)"
proof (rule Least_equality [symmetric])
  show "edits a b (levenshtein_spec a b)"
    using edits_lev_prefix [of "length a" a "length b" b] by (simp add: levenshtein_spec_def)
  show "\<And>n. edits a b n \<Longrightarrow> levenshtein_spec a b \<le> n"
    by (simp add: levenshtein_spec_def lev_prefix_le_edits)
qed

text \<open>
  \<open>findSimilarTags\<close> keeps exactly the vocabulary entries whose distance to the candidate
  is above 0 and at most the threshold, and the distance is the Levenshtein distance: the
  value of the textbook recurrence, which is the least number of deletions, insertions
  and substitutions that turn one string into the other.
\<close>

lemma findSimilarTags_filter:
  "findSimilarTags existingTags tag threshold =
     filter (\<lambda>e. 0 < levenshtein_spec tag e \<and> levenshtein_spec tag e \<le> threshold) existingTags \<and>
   levenshteinDistance a b = levenshtein_spec a b \<and>
   levenshteinDistance a b = (LEAST n. edits a b n)"
  by (simp add: findSimilarTags_def levenshteinDistance_eq levenshtein_spec_least Let_def conj_commute)

section \<open>Formatted tags are fixed by formatting\<close>


lemma tag_char_lower: "tag_char c \<Longrightarrow> toLowerCase_char c = c"
  by (auto simp: tag_char_def toLowerCase_char_def Let_def)

lemma tag_char_not_space: "tag_char c \<Longrightarrow> \<not> is_space c"
  by (auto simp: tag_char_def is_space_def Let_def)

lemma tag_char_hyphen: "tag_char (CHR ''-'')"
  by (simp add: tag_char_def)

lemma dropWhile_none: "\<forall>c \<in> set s. \<not> P c \<Longrightarrow> dropWhile P s = s"
  by (cases s) simp_all

lemma trim_tag_chars: "\<forall>c \<in> set s. tag_char c \<Longrightarrow> trim s = s"
  by (simp add: trim_def dropWhile_none tag_char_not_space)

lemma collapse_head: "\<exists>ys. collapse_hyphens (c # cs) = c # ys"
  by (induction "c # cs" arbitrary: c cs rule: collapse_hyphens.induct) auto

lemma no_double_collapse: "no_double (collapse_hyphens s)"
proof (induction s rule: collapse_hyphens.induct)
  case (3 c d cs)
  obtain ys where ys: "collapse_hyphens (d # cs) = d # ys"
    using collapse_head by blast
  with 3 show ?case by auto
qed simp_all

lemma collapse_no_double: "no_double s \<Longrightarrow> collapse_hyphens s = s"
  by (induction s rule: collapse_hyphens.induct) auto

lemma set_collapse: "set (collapse_hyphens s) \<subseteq> set s"
  by (induction s rule: collapse_hyphens.induct) auto

lemma no_double_tl: "no_double (c # cs) \<Longrightarrow> no_double cs"
  by (cases cs) simp_all

lemma no_double_butlast: "no_double s \<Longrightarrow> no_double (butlast s)"
  by (induction s rule: no_double.induct) (auto split: if_splits)

lemma no_double_snoc: "no_double (cs @ [c, d]) \<Longrightarrow> \<not> (c = CHR ''-'' \<and> d = CHR ''-'')"
  by (induction cs rule: no_double.induct) auto

lemma normalized_strip:
  assumes "no_double s"
  shows "(\<forall>cs. strip_trail (strip_lead s) \<noteq> CHR ''-'' # cs) \<and>
         (\<forall>cs. strip_trail (strip_lead s) \<noteq> cs @ [CHR ''-''])"
proof -
  let ?u = "strip_lead s"
  have u1: "\<forall>cs. ?u \<noteq> CHR ''-'' # cs"
    using assms by (cases s rule: no_double.cases) (auto simp: strip_lead_def)
  have u2: "no_double ?u"
    using assms by (cases s) (auto simp: strip_lead_def dest: no_double_tl)
  show ?thesis
  proof (cases "?u \<noteq> [] \<and> last ?u = CHR ''-''")
    case False
    then have "strip_trail ?u = ?u" by (auto simp: strip_trail_def)
    moreover have "\<forall>cs. ?u \<noteq> cs @ [CHR ''-'']" using False by auto
    ultimately show ?thesis using u1 by simp
  next
    case True
    then obtain v where v: "?u = v @ [CHR ''-'']"
      by (metis append_butlast_last_id)
    then have st: "strip_trail ?u = v" by (simp add: strip_trail_def)
    have "\<forall>cs. v \<noteq> CHR ''-'' # cs" using u1 v by auto
    moreover have "\<forall>cs. v \<noteq> cs @ [CHR ''-'']"
    proof (intro allI notI)
      fix cs assume "v = cs @ [CHR ''-'']"
      with v u2 have "no_double (cs @ [CHR ''-'', CHR ''-''])" by simp
      then show False using no_double_snoc by blast
    qed
    ultimately show ?thesis using st by simp
  qed
qed

lemma set_strip: "set (strip_trail (strip_lead s)) \<subseteq> set s"
proof -
  have "set (strip_lead s) \<subseteq> set s" by (cases s) (auto simp: strip_lead_def)
  moreover have "set (strip_trail (strip_lead s)) \<subseteq> set (strip_lead s)"
    by (auto simp: strip_trail_def dest: in_set_butlastD)
  ultimately show ?thesis by blast
qed

lemma no_double_strip: "no_double s \<Longrightarrow> no_double (strip_trail (strip_lead s))"
proof -
  assume a: "no_double s"
  have "no_double (strip_lead s)"
    using a by (cases s) (auto simp: strip_lead_def dest: no_double_tl)
  then show ?thesis by (simp add: strip_trail_def no_double_butlast)
qed

lemma normalized_formattedTag: "normalized (formattedTag tag)"
proof -
  let ?r = "replace_disallowed (trim (toLowerCase tag))"
  let ?c = "collapse_hyphens ?r"
  have "\<forall>c \<in> set ?r. tag_char c"
    by (auto simp: replace_disallowed_def tag_char_hyphen)
  then have "\<forall>c \<in> set ?c. tag_char c"
    using set_collapse by blast
  then have chars: "\<forall>c \<in> set (strip_trail (strip_lead ?c)). tag_char c"
    using set_strip by blast
  have nd: "no_double ?c" by (rule no_double_collapse)
  show ?thesis
    unfolding normalized_def formattedTag_def
    using chars no_double_strip [OF nd] normalized_strip [OF nd] by blast
qed

lemma formattedTag_normalized:
  assumes "normalized t"
  shows "formattedTag t = t"
proof -
  have chars: "\<forall>c \<in> set t. tag_char c" using assms by (simp add: normalized_def)
  have 1: "toLowerCase t = t"
    using chars by (simp add: toLowerCase_def tag_char_lower map_idI)
  have 2: "trim t = t" using chars by (rule trim_tag_chars)
  have 3: "replace_disallowed t = t"
    using chars by (simp add: replace_disallowed_def map_idI)
  have 4: "collapse_hyphens t = t"
    using assms by (simp add: normalized_def collapse_no_double)
  have 5: "strip_lead t = t"
    using assms by (cases t) (auto simp: normalized_def strip_lead_def)
  have 6: "strip_trail t = t"
  proof (cases "t = []")
    case True
    then show ?thesis by (simp add: strip_trail_def)
  next
    case False
    then have "t = butlast t @ [last t]" by simp
    with assms have "last t \<noteq> CHR ''-''" by (metis normalized_def)
    then show ?thesis by (simp add: strip_trail_def)
  qed
  show ?thesis by (simp add: formattedTag_def 1 2 3 4 5 6)
qed

lemma formattedTag_idem: "formattedTag (formattedTag s) = formattedTag s"
  by (rule formattedTag_normalized) (rule normalized_formattedTag)


lemma in_dropWhile: "c \<in> set s \<Longrightarrow> \<not> P c \<Longrightarrow> c \<in> set (dropWhile P s)"
  by (induction s) auto

lemma in_trim: "c \<in> set s \<Longrightarrow> \<not> is_space c \<Longrightarrow> c \<in> set (trim s)"
  by (simp add: trim_def in_dropWhile)

lemma in_collapse: "c \<in> set s \<Longrightarrow> c \<noteq> CHR ''-'' \<Longrightarrow> c \<in> set (collapse_hyphens s)"
  by (induction s rule: collapse_hyphens.induct) auto

lemma in_strip_lead: "c \<in> set s \<Longrightarrow> c \<noteq> CHR ''-'' \<Longrightarrow> c \<in> set (strip_lead s)"
  by (cases s) (auto simp: strip_lead_def)

lemma in_strip_trail: "c \<in> set s \<Longrightarrow> c \<noteq> CHR ''-'' \<Longrightarrow> c \<in> set (strip_trail s)"
proof (cases "s \<noteq> [] \<and> last s = CHR ''-''")
  case True
  assume c: "c \<in> set s" "c \<noteq> CHR ''-''"
  from True have "s = butlast s @ [CHR ''-'']" by (metis append_butlast_last_id)
  then have "set s = set (butlast s) \<union> {CHR ''-''}" by (metis list.set(1,2) set_append Un_insert_right sup_bot.right_neutral)
  with c have "c \<in> set (butlast s)" by auto
  with True show ?thesis by (simp add: strip_trail_def)
next
  case False
  assume "c \<in> set s"
  with False show ?thesis by (auto simp: strip_trail_def)
qed

lemma in_formattedTag:
  assumes "c \<in> set (toLowerCase p)" and "tag_char c" and "c \<noteq> CHR ''-''"
  shows "c \<in> set (formattedTag p)"
proof -
  have "c \<in> set (trim (toLowerCase p))"
    using assms(1,2) by (simp add: in_trim tag_char_not_space)
  then have "c \<in> set (replace_disallowed (trim (toLowerCase p)))"
    using assms(2) by (force simp: replace_disallowed_def)
  then show ?thesis
    using assms(3) by (simp add: formattedTag_def in_collapse in_strip_lead in_strip_trail)
qed

lemma collapse_hyphens_run:
  assumes "collapse_hyphens (h # t) = h # t" and "h \<noteq> CHR ''-''"
  shows "collapse_hyphens (replicate n (CHR ''-'') @ h # t) = (if n = 0 then h # t else CHR ''-'' # h # t)"
proof (induction n)
  case 0
  with assms show ?case by simp
next
  case (Suc n)
  show ?case
  proof (cases n)
    case 0
    with assms show ?thesis by simp
  next
    case (Suc k)
    with Suc.IH show ?thesis by simp
  qed
qed

lemma formattedTag_prefix:
  assumes p: "formattedTag p = []" and t: "normalized t"
  shows "formattedTag (p @ t) = t"
proof (cases t)
  case Nil
  with p show ?thesis by simp
next
  case (Cons h t')
  let ?pl = "toLowerCase p"
  let ?q = "dropWhile is_space ?pl"
  have chars: "\<forall>c \<in> set t. tag_char c" using t by (simp add: normalized_def)
  have h: "h \<noteq> CHR ''-''" using t Cons by (simp add: normalized_def)
  have lower: "toLowerCase (p @ t) = ?pl @ t"
    using chars by (simp add: toLowerCase_def tag_char_lower map_idI)
  have nospace: "\<forall>c \<in> set t. \<not> is_space c"
    using chars tag_char_not_space by blast
  have front: "dropWhile is_space (?pl @ t) = ?q @ t"
    using nospace by (simp add: dropWhile_append dropWhile_none)
  have "dropWhile is_space (rev t @ rev ?q) = rev t @ rev ?q"
    using nospace Cons by (simp add: dropWhile_append dropWhile_none)
  then have trimmed: "trim (?pl @ t) = ?q @ t"
    by (simp add: trim_def front)
  have hyphens: "\<forall>c \<in> set ?q. \<not> tag_char c \<or> c = CHR ''-''"
  proof (intro ballI)
    fix c assume "c \<in> set ?q"
    then have c: "c \<in> set ?pl" by (rule set_dropWhileD)
    show "\<not> tag_char c \<or> c = CHR ''-''"
    proof (rule ccontr)
      assume "\<not> (\<not> tag_char c \<or> c = CHR ''-'')"
      with c have "c \<in> set (formattedTag p)" by (simp add: in_formattedTag)
      with p show False by simp
    qed
  qed
  have "map (\<lambda>c. if tag_char c then c else CHR ''-'') ?q = replicate (length ?q) (CHR ''-'')"
    using hyphens by (intro replicate_eqI) auto
  then have replaced: "replace_disallowed (?q @ t) = replicate (length ?q) (CHR ''-'') @ t"
    using chars by (simp add: replace_disallowed_def map_idI)
  have fix_t: "collapse_hyphens (h # t') = h # t'"
    using t Cons by (simp add: normalized_def collapse_no_double)
  have collapsed: "collapse_hyphens (replicate (length ?q) (CHR ''-'') @ t) =
      (if length ?q = 0 then t else CHR ''-'' # t)"
    using collapse_hyphens_run [OF fix_t h] Cons by simp
  have lead: "strip_lead (if length ?q = 0 then t else CHR ''-'' # t) = t"
    using h Cons by (simp add: strip_lead_def)
  have trail: "strip_trail t = t"
  proof -
    have "t = butlast t @ [last t]" using Cons by simp
    with t have "last t \<noteq> CHR ''-''" by (metis normalized_def)
    then show ?thesis by (simp add: strip_trail_def)
  qed
  show ?thesis
    by (simp only: formattedTag_def lower trimmed replaced collapsed lead trail)
qed


section \<open>The batch loop is one pass over the documents\<close>


declare run_batches.simps [simp del]

lemma process_one_delays:
  "process_one pf f (b\<lparr>delays := d\<rparr>) = (process_one pf f b)\<lparr>delays := d\<rparr>"
  by (simp add: process_one_def split: prod.splits outcome.splits)

lemma fold_process_one_delays:
  "fold (process_one pf) xs (b\<lparr>delays := d\<rparr>) = (fold (process_one pf) xs b)\<lparr>delays := d\<rparr>"
  by (induction xs arbitrary: b) (simp_all add: process_one_delays)

lemma run_batches_fold:
  "\<exists>d. run_batches pf files i b = (fold (process_one pf) (drop i files) b)\<lparr>delays := d\<rparr>"
proof (induction pf files i b rule: run_batches.induct)
  case (1 pf files i b)
  show ?case
  proof (cases "i < length files")
    case False
    then have "run_batches pf files i b = b"
      by (simp add: run_batches.simps [of pf files i b])
    moreover have "b = b\<lparr>delays := delays b\<rparr>" by simp
    ultimately show ?thesis using False by (metis drop_all fold_simps(1) leI)
  next
    case True
    define b1 where "b1 = fold (process_one pf) (take batchSize (drop i files)) b"
    define b2 where "b2 = (if i + batchSize < length files then b1\<lparr>delays := delays b1 + 1\<rparr> else b1)"
    have step: "run_batches pf files i b = run_batches pf files (i + batchSize) b2"
      using True by (simp add: run_batches.simps [of pf files i b] b1_def b2_def Let_def)
    obtain d where d: "run_batches pf files (i + batchSize) b2 =
        (fold (process_one pf) (drop (i + batchSize) files) b2)\<lparr>delays := d\<rparr>"
      using "1.IH" [OF True refl b1_def [symmetric, THEN sym] b2_def] by blast
    have b2: "b2 = b1\<lparr>delays := delays b2\<rparr>" by (simp add: b2_def)
    have join: "fold (process_one pf) (drop (i + batchSize) files) b1 = fold (process_one pf) (drop i files) b"
    proof -
      have e: "drop (i + batchSize) files = drop batchSize (drop i files)"
        by (simp add: add.commute)
      have "drop i files = take batchSize (drop i files) @ drop (i + batchSize) files"
        unfolding e by (simp only: append_take_drop_id)
      then have "fold (process_one pf) (drop i files) b =
          fold (process_one pf) (take batchSize (drop i files) @ drop (i + batchSize) files) b"
        by simp
      then show ?thesis by (simp add: b1_def)
    qed
    have "fold (process_one pf) (drop (i + batchSize) files) b2 =
        (fold (process_one pf) (drop i files) b)\<lparr>delays := delays b2\<rparr>"
      by (subst b2) (simp add: fold_process_one_delays join)
    with step d have "run_batches pf files i b = (fold (process_one pf) (drop i files) b)\<lparr>delays := d\<rparr>"
      by simp
    then show ?thesis ..
  qed
qed


lemma fold_all_resolved:
  "\<forall>f \<in> set xs. \<forall>st. fst (pf st f) = Resolved \<Longrightarrow>
   processed (fold (process_one pf) xs b) = processed b + length xs \<and>
   errors (fold (process_one pf) xs b) = errors b"
proof (induction xs arbitrary: b)
  case Nil
  then show ?case by simp
next
  case (Cons x xs)
  from Cons.prems have "fst (pf (carried b) x) = Resolved" by simp
  then have "processed (process_one pf x b) = processed b + 1 \<and> errors (process_one pf x b) = errors b"
    by (auto simp: process_one_def split: prod.splits outcome.splits)
  moreover from Cons.prems have "\<forall>f \<in> set xs. \<forall>st. fst (pf st f) = Resolved" by simp
  ultimately show ?case using Cons.IH [of "process_one pf x b"] by simp
qed




section \<open>Runs of processFile\<close>

lemma createFallbackProvider_unavailable:
  "api_key settings (fallback_kind k) = [] \<or> isProviderInCooldown now st (fallback_kind k) \<Longrightarrow>
   fr_provider (fst (createFallbackProvider now st settings k)) = None \<and>
   snd (createFallbackProvider now st settings k) = st"
  by (cases k) (auto simp: createFallbackProvider_def Let_def fallback_kind_def api_key_def)

lemma cooldown_after_report:
  "k' \<noteq> k \<Longrightarrow> isProviderInCooldown now (reportProviderFailure t st k) k' = isProviderInCooldown now st k'"
  by (simp add: isProviderInCooldown_def reportProviderFailure_def setProviderCooldown_def Let_def)

lemma fallback_kind_neq: "fallback_kind k \<noteq> k"
  by (cases k) (simp_all add: fallback_kind_def)

lemma processFile_resolves: "fst (processFile settings env rs file) = Resolved"
  by (simp add: processFile_def split: prod.splits option.splits sum.splits)

lemma processFile_no_provider:
  "fst (createProvider (tAcquire env) (pool rs) settings) = None \<Longrightarrow>
   trace (snd (processFile settings env rs file)) = trace rs"
  by (auto simp: processFile_def split: prod.splits option.splits sum.splits)

lemma on_provider_error_no_fallback:
  assumes "api_key settings (fallback_kind (provider settings)) = [] \<or>
           isProviderInCooldown (tFailure env) (pool rs) (fallback_kind (provider settings))"
  shows "trace (on_provider_error settings env text rs) = trace rs @ [ReportFailure (provider settings)]"
proof -
  let ?st = "reportProviderFailure (tFailure env) (pool rs) (provider settings)"
  have "api_key settings (fallback_kind (provider settings)) = [] \<or>
        isProviderInCooldown (tFailure env) ?st (fallback_kind (provider settings))"
    using assms by (simp add: cooldown_after_report fallback_kind_neq)
  then have "fr_provider (fst (createFallbackProvider (tFailure env) ?st settings (provider settings))) = None"
    using createFallbackProvider_unavailable by blast
  moreover obtain fr st2 where
    "createFallbackProvider (tFailure env) ?st settings (provider settings) = (fr, st2)"
    by (cases "createFallbackProvider (tFailure env) ?st settings (provider settings)")
  ultimately show ?thesis
    by (simp add: on_provider_error_def Let_def emit_def)
qed

lemma processFile_no_fallback:
  assumes "extension file = ''md''"
    and "createProvider (tAcquire env) (pool rs) settings = (Some p, st')"
    and "readResult env = Some content"
    and "extractFrontmatter content = Some (frontmatter, text)"
    and "tagsFrom env p text = None \<or> \<not> frontMatterOk env"
    and "api_key settings (fallback_kind (provider settings)) = [] \<or>
         isProviderInCooldown (tFailure env) st' (fallback_kind (provider settings))"
  shows "trace (snd (processFile settings env rs file)) =
         trace rs @ [GenerateTags p text, ReportFailure (provider settings)]"
proof -
  let ?rs1 = "emit (GenerateTags p text) (rs\<lparr>pool := st'\<rparr>)"
  have ne: "content \<noteq> []" using assms(4) by (auto simp: extractFrontmatter_def)
  have "trace (on_provider_error settings env text ?rs1) = trace ?rs1 @ [ReportFailure (provider settings)]"
    using assms(6) by (intro on_provider_error_no_fallback) (simp add: emit_def)
  moreover have "with_frontmatter settings env p text (rs\<lparr>pool := st'\<rparr>) = on_provider_error settings env text ?rs1"
    using assms(5) by (auto simp: with_frontmatter_def generate_formatted_def Let_def split: option.splits)
  ultimately show ?thesis
    using assms(1,2,3,4) ne by (simp add: processFile_def process_body_def emit_def)
qed


lemma processFile_plain_primary_fails:
  assumes "extension file = ''md''"
    and "createProvider (tAcquire env) (pool rs) settings = (Some p, st')"
    and "readResult env = Some content"
    and "extractFrontmatter content = None"
    and "tagsFrom env p content = None"
  shows "trace (snd (processFile settings env rs file)) =
         trace rs @ [GenerateTags p content, Release p]"
proof -
  have "generate_formatted settings env p content = None"
    using assms(5) by (simp add: generate_formatted_def)
  then have "trace (without_frontmatter settings env p content (rs\<lparr>pool := st'\<rparr>)) =
      trace rs @ [GenerateTags p content, Release p]"
    by (simp add: without_frontmatter_def release_def emit_def Let_def)
  then show ?thesis
    using assms(1,2,3,4) by (simp add: processFile_def process_body_def)
qed

lemma processFile_not_markdown:
  "extension file \<noteq> ''md'' \<Longrightarrow> processFile settings env rs file = (Resolved, rs)"
  by (simp add: processFile_def)

lemma processFile_read_rejects:
  assumes "extension file = ''md''"
    and "createProvider (tAcquire env) (pool rs) settings = (Some p, st')"
    and "readResult env = None"
  shows "trace (snd (processFile settings env rs file)) = trace rs @ [Release p]"
  using assms by (simp add: processFile_def process_body_def release_def emit_def)

lemma processFile_plain_fails:
  assumes "extension file = ''md''"
    and "createProvider (tAcquire env) (pool rs) settings = (Some p, st')"
    and "readResult env = Some content"
    and "extractFrontmatter content = None"
    and "tagsFrom env p content = None \<or> \<not> processOk env"
  shows "trace (snd (processFile settings env rs file)) =
         trace rs @ [GenerateTags p content, Release p]"
proof -
  have "trace (without_frontmatter settings env p content (rs\<lparr>pool := st'\<rparr>)) =
      trace rs @ [GenerateTags p content, Release p]"
    using assms(5)
    by (auto simp: without_frontmatter_def generate_formatted_def release_def emit_def Let_def
        split: option.splits)
  then show ?thesis
    using assms(1,2,3,4) by (simp add: processFile_def process_body_def)
qed

lemma with_fallback_fails:
  "tagsFrom env fb body = None \<or> \<not> frontMatterRetryOk env \<Longrightarrow>
   trace (with_fallback settings env fb body rs) = trace rs @ [GenerateTags fb body, Release fb]"
  by (auto simp: with_fallback_def generate_formatted_def release_def emit_def Let_def
      split: option.splits)

lemma processFile_fallback_fails:
  assumes "extension file = ''md''"
    and "createProvider (tAcquire env) (pool rs) settings = (Some p, st')"
    and "readResult env = Some content"
    and "extractFrontmatter content = Some (frontmatter, body)"
    and "tagsFrom env p body = None \<or> \<not> frontMatterOk env"
    and "createFallbackProvider (tFailure env)
           (reportProviderFailure (tFailure env) st' (provider settings))
           settings (provider settings) = (fr, st2)"
    and "fr_provider fr = Some fb" and "success fr"
    and "tagsFrom env fb body = None \<or> \<not> frontMatterRetryOk env"
  shows "trace (snd (processFile settings env rs file)) =
         trace rs @ [GenerateTags p body, ReportFailure (provider settings),
                     GenerateTags fb body, Release fb]"
proof -
  let ?rs1 = "emit (GenerateTags p body) (rs\<lparr>pool := st'\<rparr>)"
  let ?rs2 = "(emit (ReportFailure (provider settings))
      (?rs1\<lparr>pool := reportProviderFailure (tFailure env) (pool ?rs1) (provider settings)\<rparr>))\<lparr>pool := st2\<rparr>"
  have p1: "pool ?rs1 = st'" by (simp add: emit_def)
  have "on_provider_error settings env body ?rs1 = with_fallback settings env fb body ?rs2"
    using assms(6,7,8) by (simp add: on_provider_error_def Let_def p1 emit_def)
  moreover have "trace ?rs2 = trace rs @ [GenerateTags p body, ReportFailure (provider settings)]"
    by (simp add: emit_def)
  ultimately have "trace (on_provider_error settings env body ?rs1) =
      trace rs @ [GenerateTags p body, ReportFailure (provider settings), GenerateTags fb body, Release fb]"
    using with_fallback_fails [OF assms(9), of settings ?rs2] by simp
  moreover have "with_frontmatter settings env p body (rs\<lparr>pool := st'\<rparr>) =
      on_provider_error settings env body ?rs1"
    using assms(5) by (auto simp: with_frontmatter_def generate_formatted_def Let_def split: option.splits)
  ultimately show ?thesis
    using assms(1,2,3,4) by (simp add: processFile_def process_body_def)
qed

text \<open>
  \<open>createFallbackProvider\<close> hands out a provider unless the key of the fallback kind is
  missing or that kind is in cooldown.
\<close>

lemma createFallbackProvider_cases:
  "(api_key settings (fallback_kind k) = [] \<or> isProviderInCooldown now st (fallback_kind k)) \<or>
   (\<exists>fb. fr_provider (fst (createFallbackProvider now st settings k)) = Some fb \<and>
         success (fst (createFallbackProvider now st settings k)))"
  by (cases k)
     (auto simp: createFallbackProvider_def store_new_def Let_def fallback_kind_def api_key_def)

text \<open>
  What a run writes, on every path: the document is written at most once, and only after
  a call of \<open>generateTags\<close> and the write after it have resolved.
\<close>

lemma written_release [simp]: "written (release env p rs) = written rs"
  by (simp add: written_def release_def emit_def)

lemma written_emit:
  "written (emit e rs) = written rs @ (if is_rewrite e then [e] else [])"
  by (simp add: written_def emit_def)

lemma pool_emit [simp]: "pool (emit e rs) = pool rs"
  by (simp add: emit_def)

lemma emit_pool: "(emit e rs)\<lparr>pool := st\<rparr> = emit e (rs\<lparr>pool := st\<rparr>)"
  by (simp add: emit_def)

lemma written_pool [simp]: "written (rs\<lparr>pool := st\<rparr>) = written rs"
  by (simp add: written_def)

lemma with_fallback_written:
  "written (with_fallback settings env fb body rs) = written rs @
     (case generate_formatted settings env fb body of
        None \<Rightarrow> []
      | Some tags \<Rightarrow> if frontMatterRetryOk env then [ProcessFrontMatter tags] else [])"
  by (simp add: with_fallback_def written_emit Let_def split: option.splits)

lemma on_provider_error_written:
  "written (on_provider_error settings env body rs) = written rs @
     (case createFallbackProvider (tFailure env)
             (reportProviderFailure (tFailure env) (pool rs) (provider settings))
             settings (provider settings) of
        (fr, st2) \<Rightarrow>
          (case fr_provider fr of
             None \<Rightarrow> []
           | Some fb \<Rightarrow>
               if success fr
               then (case generate_formatted settings env fb body of
                       None \<Rightarrow> []
                     | Some tags \<Rightarrow> if frontMatterRetryOk env then [ProcessFrontMatter tags] else [])
               else []))"
  by (simp add: on_provider_error_def with_fallback_written written_emit Let_def
      split: prod.splits option.splits)

lemma without_frontmatter_written:
  "written (without_frontmatter settings env p content rs) = written rs @
     (case generate_formatted settings env p content of
        None \<Rightarrow> []
      | Some tags \<Rightarrow>
          if processOk env then [VaultProcess (createContentWithTags content tags)] else [])"
  by (simp add: without_frontmatter_def written_emit Let_def split: option.splits)

lemma with_frontmatter_written:
  "pool rs = st \<Longrightarrow>
   written (with_frontmatter settings env p body rs) = written rs @
     (case (case generate_formatted settings env p body of
              None \<Rightarrow> None
            | Some tags \<Rightarrow> if frontMatterOk env then Some tags else None) of
        Some tags \<Rightarrow> [ProcessFrontMatter tags]
      | None \<Rightarrow>
          (case createFallbackProvider (tFailure env)
                  (reportProviderFailure (tFailure env) st (provider settings))
                  settings (provider settings) of
             (fr, st2) \<Rightarrow>
               (case fr_provider fr of
                  None \<Rightarrow> []
                | Some fb \<Rightarrow>
                    if success fr
                    then (case generate_formatted settings env fb body of
                            None \<Rightarrow> []
                          | Some tags \<Rightarrow>
                              if frontMatterRetryOk env then [ProcessFrontMatter tags] else [])
                    else [])))"
  by (auto simp: with_frontmatter_def on_provider_error_written written_emit Let_def
      split: option.splits)

lemma processFile_written:
  "written (snd (processFile settings env rs file)) = written rs @
     (if extension file \<noteq> ''md'' then []
      else case createProvider (tAcquire env) (pool rs) settings of
             (None, st') \<Rightarrow> []
           | (Some p, st') \<Rightarrow>
               (case readResult env of
                  None \<Rightarrow> []
                | Some content \<Rightarrow>
                    (case extractFrontmatter content of
                       None \<Rightarrow>
                         (case generate_formatted settings env p content of
                            None \<Rightarrow> []
                          | Some tags \<Rightarrow>
                              if processOk env
                              then [VaultProcess (createContentWithTags content tags)] else [])
                     | Some (frontmatter, body) \<Rightarrow>
                         (case (case generate_formatted settings env p body of
                                  None \<Rightarrow> None
                                | Some tags \<Rightarrow> if frontMatterOk env then Some tags else None) of
                            Some tags \<Rightarrow> [ProcessFrontMatter tags]
                          | None \<Rightarrow>
                              (case createFallbackProvider (tFailure env)
                                      (reportProviderFailure (tFailure env) st' (provider settings))
                                      settings (provider settings) of
                                 (fr, st2) \<Rightarrow>
                                   (case fr_provider fr of
                                      None \<Rightarrow> []
                                    | Some fb \<Rightarrow>
                                        if success fr
                                        then (case generate_formatted settings env fb body of
                                                None \<Rightarrow> []
                                              | Some tags \<Rightarrow>
                                                  if frontMatterRetryOk env
                                                  then [ProcessFrontMatter tags] else [])
                                        else []))))))"
proof (cases "extension file \<noteq> ''md''")
  case True
  then show ?thesis by (simp add: processFile_def)
next
  case False
  obtain r st' where c: "createProvider (tAcquire env) (pool rs) settings = (r, st')"
    by (cases "createProvider (tAcquire env) (pool rs) settings")
  show ?thesis
  proof (cases r)
    case None
    with False c show ?thesis by (simp add: processFile_def)
  next
    case (Some p)
    show ?thesis
    proof (cases "readResult env")
      case None
      with False c Some show ?thesis by (simp add: processFile_def process_body_def)
    next
      case (Some content)
      note content = this
      show ?thesis
      proof (cases "extractFrontmatter content")
        case None
        with False c \<open>r = Some p\<close> content show ?thesis
          by (simp add: processFile_def process_body_def without_frontmatter_written)
      next
        case (Some fm)
        obtain frontmatter body where "fm = (frontmatter, body)" by (cases fm)
        with False c \<open>r = Some p\<close> content Some show ?thesis
          by (simp add: processFile_def process_body_def
              with_frontmatter_written [where st = st'])
      qed
    qed
  qed
qed

section \<open>The pool after a reported failure\<close>

lemma createProvider_refused_after_failure:
  "provider settings = k \<Longrightarrow>
   createProvider now (reportProviderFailure t st k) settings = (None, reportProviderFailure t st k)"
  by (simp add: createProvider_def reportProviderFailure_def Let_def)

lemma cooldown_window:
  "isProviderInCooldown now (reportProviderFailure t st k) k \<longleftrightarrow> now < t + cooldownDuration"
  by (simp add: isProviderInCooldown_def reportProviderFailure_def setProviderCooldown_def
      cooldownDuration_def Let_def)

section \<open>Reconciled tags are distinct\<close>

lemma distinct_set_add: "distinct s \<Longrightarrow> distinct (set_add s x)"
  by (simp add: set_add_def)

lemma distinct_enhance_step: "distinct acc \<Longrightarrow> distinct (enhance_step existingTags tag acc)"
  by (simp add: enhance_step_def distinct_set_add Let_def)

lemma distinct_fold_enhance:
  "distinct acc \<Longrightarrow> distinct (fold (enhance_step existingTags) tags acc)"
  by (induction tags arbitrary: acc) (simp_all add: distinct_enhance_step)

lemma enhanceTagConsistency_distinct: "distinct (enhanceTagConsistency existingTags generatedTags)"
  by (simp add: enhanceTagConsistency_def distinct_fold_enhance)

section \<open>The concrete inputs, evaluated\<close>

lemma digits_2000: "digits 2000 = ''2000''"
  by (simp add: digits.simps digit_def)

lemma digits_71000: "digits 71000 = ''71000''"
  by (simp add: digits.simps digit_def)

lemma extract_doc_with_frontmatter:
  "extractFrontmatter doc_with_frontmatter = Some (''title: x'', ''\<newline>body'')"
  by (simp add: extractFrontmatter_def doc_with_frontmatter_def)

lemma extract_plain: "extractFrontmatter ''body'' = None"
  by (simp add: extractFrontmatter_def)

lemma create_first_claude:
  "claudeApiKey settings = ''key-a'' \<Longrightarrow> claudeModel settings = ''m'' \<Longrightarrow> provider settings = CLAUDE \<Longrightarrow>
   createProvider now initial_factory settings =
     (Some (ProviderObj CLAUDE 0),
      initial_factory
        \<lparr>activeProviders :=
           [(''claude-m'', \<lparr>pd_provider = ProviderObj CLAUDE 0, lastUsed = now, pd_id = ''claude-m''\<rparr>)],
         nextRef := 1\<rparr>)"
  by (simp add: createProvider_def initial_factory_def isProviderInCooldown_def
      make_room_or_reuse_def maxActiveProviders_def create_instance_def getProviderId_def
      store_new_def Let_def)

lemma create_without_key: "createProvider now initial_factory no_keys = (None, initial_factory)"
  by (simp add: createProvider_def initial_factory_def isProviderInCooldown_def
      make_room_or_reuse_def maxActiveProviders_def create_instance_def getProviderId_def
      no_keys_def claude_only_def Let_def)

lemma claude_only_fields:
  "provider claude_only = CLAUDE" "claudeApiKey claude_only = ''key-a''"
  "claudeModel claude_only = ''m''" "openaiApiKey claude_only = []"
  by (simp_all add: claude_only_def)

lemma both_keys_fields:
  "provider both_keys = CLAUDE" "claudeApiKey both_keys = ''key-a''"
  "claudeModel both_keys = ''m''" "openaiApiKey both_keys = ''key-o''"
  by (simp_all add: both_keys_def claude_only_def)

lemma run_all_reject_fields:
  "tAcquire run_all_reject = 1000" "tFailure run_all_reject = 2000"
  "readResult run_all_reject = Some doc_with_frontmatter"
  "tagsFrom run_all_reject p text = None"
  by (simp_all add: run_all_reject_def)

lemma run_plain_fields:
  "tAcquire run_plain_claude_rejects = 1000" "tRelease run_plain_claude_rejects = 3000"
  "readResult run_plain_claude_rejects = Some ''body''"
  "tagsFrom run_plain_claude_rejects (ProviderObj CLAUDE n) text = None"
  by (simp_all add: run_plain_claude_rejects_def)

lemma fresh_fields: "pool fresh = initial_factory" "trace fresh = []"
  by (simp_all add: fresh_def)

lemma trace_all_reject:
  "trace (snd (processFile claude_only run_all_reject fresh md_file)) =
     [GenerateTags (ProviderObj CLAUDE 0) ''\<newline>body'', ReportFailure CLAUDE]"
proof -
  have "trace (snd (processFile claude_only run_all_reject fresh md_file)) =
      trace fresh @ [GenerateTags (ProviderObj CLAUDE 0) ''\<newline>body'', ReportFailure (provider claude_only)]"
  proof (rule processFile_no_fallback)
    show "extension md_file = ''md''" by (simp add: md_file_def)
    show "createProvider (tAcquire run_all_reject) (pool fresh) claude_only =
        (Some (ProviderObj CLAUDE 0),
         initial_factory
           \<lparr>activeProviders :=
              [(''claude-m'', \<lparr>pd_provider = ProviderObj CLAUDE 0, lastUsed = 1000, pd_id = ''claude-m''\<rparr>)],
            nextRef := 1\<rparr>)"
      by (simp add: run_all_reject_fields fresh_fields create_first_claude claude_only_fields)
    show "readResult run_all_reject = Some doc_with_frontmatter"
      by (rule run_all_reject_fields)
    show "extractFrontmatter doc_with_frontmatter = Some (''title: x'', ''\<newline>body'')"
      by (rule extract_doc_with_frontmatter)
    show "tagsFrom run_all_reject (ProviderObj CLAUDE 0) ''\<newline>body'' = None \<or> \<not> frontMatterOk run_all_reject"
      by (simp add: run_all_reject_fields)
    show "api_key claude_only (fallback_kind (provider claude_only)) = [] \<or>
        isProviderInCooldown (tFailure run_all_reject)
          (initial_factory
             \<lparr>activeProviders :=
                [(''claude-m'', \<lparr>pd_provider = ProviderObj CLAUDE 0, lastUsed = 1000, pd_id = ''claude-m''\<rparr>)],
              nextRef := 1\<rparr>)
          (fallback_kind (provider claude_only))"
      by (simp add: api_key_def fallback_kind_def claude_only_fields)
  qed
  then show ?thesis by (simp add: fresh_fields claude_only_fields)
qed

lemma pool_all_reject:
  "activeProviders (pool (snd (processFile claude_only run_all_reject fresh md_file))) =
     [(''claude-m'', \<lparr>pd_provider = ProviderObj CLAUDE 0, lastUsed = 1000, pd_id = ''claude-m''\<rparr>)]"
proof -
  have c: "createProvider 1000 initial_factory claude_only =
        (Some (ProviderObj CLAUDE 0),
         initial_factory
           \<lparr>activeProviders :=
              [(''claude-m'', \<lparr>pd_provider = ProviderObj CLAUDE 0, lastUsed = 1000, pd_id = ''claude-m''\<rparr>)],
            nextRef := 1\<rparr>)"
    by (simp add: create_first_claude claude_only_fields)
  have g: "generate_formatted claude_only run_all_reject p body = None" for p body
    by (simp add: generate_formatted_def run_all_reject_fields)
  have f: "createFallbackProvider now st claude_only CLAUDE =
      (\<lparr>fr_provider = None, fallbackType = Some OPENAI, needsConfiguration = \<not> isProviderInCooldown now st OPENAI,
        success = False\<rparr>, st)" for now st
    by (simp add: createFallbackProvider_def claude_only_fields Let_def)
  show ?thesis
    by (simp add: processFile_def process_body_def md_file_def run_all_reject_fields fresh_fields c
        extract_doc_with_frontmatter with_frontmatter_def g on_provider_error_def f emit_def
        claude_only_fields reportProviderFailure_def setProviderCooldown_def Let_def)
qed

lemma trace_plain_claude_rejects:
  "trace (snd (processFile both_keys run_plain_claude_rejects fresh md_file)) =
     [GenerateTags (ProviderObj CLAUDE 0) ''body'', Release (ProviderObj CLAUDE 0)]"
proof -
  have "trace (snd (processFile both_keys run_plain_claude_rejects fresh md_file)) =
      trace fresh @ [GenerateTags (ProviderObj CLAUDE 0) ''body'', Release (ProviderObj CLAUDE 0)]"
  proof (rule processFile_plain_primary_fails)
    show "extension md_file = ''md''" by (simp add: md_file_def)
    show "createProvider (tAcquire run_plain_claude_rejects) (pool fresh) both_keys =
        (Some (ProviderObj CLAUDE 0),
         initial_factory
           \<lparr>activeProviders :=
              [(''claude-m'', \<lparr>pd_provider = ProviderObj CLAUDE 0, lastUsed = 1000, pd_id = ''claude-m''\<rparr>)],
            nextRef := 1\<rparr>)"
      by (simp add: run_plain_fields fresh_fields create_first_claude both_keys_fields)
    show "readResult run_plain_claude_rejects = Some ''body''" by (rule run_plain_fields)
    show "extractFrontmatter ''body'' = None" by (rule extract_plain)
    show "tagsFrom run_plain_claude_rejects (ProviderObj CLAUDE 0) ''body'' = None"
      by (rule run_plain_fields)
  qed
  then show ?thesis by (simp add: fresh_fields)
qed

lemma fallback_was_available:
  "providerCooldowns st OPENAI = None \<Longrightarrow>
   success (fst (createFallbackProvider 2000 st both_keys CLAUDE))"
  by (simp add: createFallbackProvider_def isProviderInCooldown_def both_keys_fields store_new_def
      Let_def)

lemma createProvider_cooldowns:
  "provider settings \<notin> failedProviders st \<Longrightarrow> \<not> isProviderInCooldown now st (provider settings) \<Longrightarrow>
   providerCooldowns (snd (createProvider now st settings)) = providerCooldowns st"
  by (auto simp: createProvider_def make_room_or_reuse_def create_instance_def store_new_def
      getExistingProvider_def cleanupOldestProvider_def Let_def
      split: prod.splits option.splits LLMProvider.splits)

lemma three_active:
  "map fst (activeProviders (run_ops initial_factory switch_and_fail)) =
     [''claude-m'', ''openai-fallback-2000'', ''claude-fallback-71000'']"
  by (simp add: run_ops_def switch_and_fail_def both_keys_def both_keys_openai_def claude_only_def
      initial_factory_def createProvider_def createFallbackProvider_def reportProviderFailure_def
      setProviderCooldown_def isProviderInCooldown_def make_room_or_reuse_def create_instance_def
      getProviderId_def store_new_def getExistingProvider_def maxActiveProviders_def
      cooldownDuration_def Let_def digits_2000 digits_71000)


lemma all_resolved_counts:
  assumes "\<forall>st f. fst (pf st f) = Resolved"
  shows "processed (processAllFiles pf st files) = length files \<and>
         errors (processAllFiles pf st files) = 0"
proof -
  obtain d where d: "processAllFiles pf st files =
      (fold (process_one pf) files (start_batch st))\<lparr>delays := d\<rparr>"
    using run_batches_fold [of pf files 0 "start_batch st"] by (auto simp: processAllFiles_def)
  have "\<forall>f \<in> set files. \<forall>st. fst (pf st f) = Resolved" using assms by simp
  from fold_all_resolved [OF this, of "start_batch st"] show ?thesis
    by (simp add: d) (simp add: start_batch_def)
qed



lemma no_cooldown_initially: "providerCooldowns initial_factory k = None"
  by (simp add: initial_factory_def)

lemma fallback_after_first_failure:
  "fr_provider (fst (createFallbackProvider 2000
      (reportProviderFailure 2000
         (initial_factory
            \<lparr>activeProviders :=
               [(''claude-m'', \<lparr>pd_provider = ProviderObj CLAUDE 0, lastUsed = 1000, pd_id = ''claude-m''\<rparr>)],
             nextRef := 1\<rparr>) CLAUDE)
      both_keys CLAUDE)) = Some (ProviderObj OPENAI 1) \<and>
   success (fst (createFallbackProvider 2000
      (reportProviderFailure 2000
         (initial_factory
            \<lparr>activeProviders :=
               [(''claude-m'', \<lparr>pd_provider = ProviderObj CLAUDE 0, lastUsed = 1000, pd_id = ''claude-m''\<rparr>)],
             nextRef := 1\<rparr>) CLAUDE)
      both_keys CLAUDE))"
  by (simp add: createFallbackProvider_def isProviderInCooldown_def reportProviderFailure_def
      setProviderCooldown_def initial_factory_def both_keys_fields store_new_def Let_def)

lemma run_read_rejects_fields:
  "tAcquire run_read_rejects = 1000" "readResult run_read_rejects = None"
  by (simp_all add: run_read_rejects_def run_all_reject_def)

section \<open>What the sibling paths do\<close>

text \<open>
  \<open>createProvider\<close> keeps the bound: outside the cooldown branch it stores a new provider
  only below the bound or after removing the oldest entry.
\<close>

lemma length_map_set: "length (map_set xs k v) \<le> Suc (length xs)"
  by (induction xs) auto

lemma find_oldest_key:
  "find_oldest xs oldestId oldestTime = Some k \<Longrightarrow> oldestId = Some k \<or> k \<in> fst ` set xs"
  by (induction xs oldestId oldestTime rule: find_oldest.induct) (auto split: if_splits)

lemma find_oldest_some:
  "xs \<noteq> [] \<Longrightarrow> \<exists>k. find_oldest xs None None = Some k \<and> k \<in> fst ` set xs"
proof (cases xs)
  case Nil
  assume "xs \<noteq> []"
  with Nil show ?thesis by simp
next
  case (Cons e rest)
  obtain k0 d where e: "e = (k0, d)" by (cases e)
  have "\<exists>k. find_oldest rest (Some k0) (Some (lastUsed d)) = Some k"
    by (induction rest "Some k0" "Some (lastUsed d)" arbitrary: k0 d rule: find_oldest.induct) auto
  then obtain k where k: "find_oldest rest (Some k0) (Some (lastUsed d)) = Some k" ..
  then have "k = k0 \<or> k \<in> fst ` set rest" using find_oldest_key by fastforce
  with k Cons e show ?thesis by auto
qed

lemma length_map_delete: "k \<in> fst ` set xs \<Longrightarrow> length (map_delete xs k) < length xs"
proof (induction xs)
  case Nil
  then show ?case by simp
next
  case (Cons e xs)
  show ?case
  proof (cases "fst e = k")
    case True
    then show ?thesis by (simp add: map_delete_def less_Suc_eq_le)
  next
    case False
    with Cons.prems have "k \<in> fst ` set xs" by auto
    with Cons.IH False show ?thesis by (simp add: map_delete_def)
  qed
qed

lemma cleanupOldestProvider_shrinks:
  assumes "activeProviders st \<noteq> []" and "\<forall>e \<in> set (activeProviders st). fst e \<noteq> []"
  shows "length (activeProviders (cleanupOldestProvider st)) < length (activeProviders st)"
proof -
  obtain k where k: "find_oldest (activeProviders st) None None = Some k" "k \<in> fst ` set (activeProviders st)"
    using find_oldest_some [OF assms(1)] by blast
  then have "k \<noteq> []" using assms(2) by auto
  with k assms(1) show ?thesis
    by (simp add: cleanupOldestProvider_def length_map_delete)
qed

lemma create_instance_length:
  "length (activeProviders (snd (create_instance now st settings))) \<le> Suc (length (activeProviders st))"
  by (auto simp: create_instance_def store_new_def Let_def length_map_set split: LLMProvider.splits)

lemma touch_first_length: "length (snd (touch_first k now xs)) = length xs"
  by (induction xs) (auto split: prod.splits)

lemma getExistingProvider_length:
  "length (activeProviders (snd (getExistingProvider now st k))) = length (activeProviders st)"
  using touch_first_length [of k now "activeProviders st"]
  by (cases "touch_first k now (activeProviders st)") (simp add: getExistingProvider_def)

lemma touch_first_none: "fst (touch_first k now xs) = None \<Longrightarrow> snd (touch_first k now xs) = xs"
  by (induction xs) (auto split: prod.splits if_splits)

lemma make_room_or_reuse_bound:
  assumes "length (activeProviders st) \<le> maxActiveProviders"
    and "\<forall>e \<in> set (activeProviders st). fst e \<noteq> []"
  shows "length (activeProviders (snd (make_room_or_reuse now st settings))) \<le> maxActiveProviders"
proof (cases "length (activeProviders st) \<ge> maxActiveProviders")
  case False
  then have "Suc (length (activeProviders st)) \<le> maxActiveProviders" by simp
  with False create_instance_length [of now st settings] show ?thesis
    by (simp add: make_room_or_reuse_def)
next
  case True
  obtain found st' where g: "getExistingProvider now st (provider settings) = (found, st')"
    by (cases "getExistingProvider now st (provider settings)")
  have len: "length (activeProviders st') = length (activeProviders st)"
    using getExistingProvider_length [of now st "provider settings"] g by simp
  show ?thesis
  proof (cases found)
    case (Some p)
    with True g len assms(1) show ?thesis by (simp add: make_room_or_reuse_def)
  next
    case None
    obtain f es where t: "touch_first (provider settings) now (activeProviders st) = (f, es)"
      by (cases "touch_first (provider settings) now (activeProviders st)")
    with g None have "f = None" "activeProviders st' = es"
      by (auto simp: getExistingProvider_def)
    with t touch_first_none [of "provider settings" now "activeProviders st"]
    have same: "activeProviders st' = activeProviders st" by simp
    have "activeProviders st' \<noteq> []"
      using True same by (auto simp: maxActiveProviders_def)
    then have "length (activeProviders (cleanupOldestProvider st')) < length (activeProviders st')"
      using assms(2) same by (intro cleanupOldestProvider_shrinks) simp_all
    then have "Suc (length (activeProviders (cleanupOldestProvider st'))) \<le> maxActiveProviders"
      using len assms(1) by simp
    with create_instance_length [of now "cleanupOldestProvider st'" settings]
    have "length (activeProviders (snd (create_instance now (cleanupOldestProvider st') settings))) \<le> maxActiveProviders"
      by simp
    with True g None show ?thesis by (simp add: make_room_or_reuse_def)
  qed
qed

lemma createProvider_keeps_bound:
  assumes "length (activeProviders st) \<le> maxActiveProviders"
    and "\<forall>e \<in> set (activeProviders st). fst e \<noteq> []"
    and "provider settings \<in> failedProviders st \<or> \<not> isProviderInCooldown now st (provider settings)"
  shows "length (activeProviders (snd (createProvider now st settings))) \<le> maxActiveProviders"
  using assms make_room_or_reuse_bound [OF assms(1,2), of now settings]
  by (auto simp: createProvider_def)

text \<open>
  With front matter, a failed primary attempt and a fallback provider at hand, exactly
  one call goes to the fallback provider, and the fallback provider is released
  whether the call and the write succeed or not.
\<close>

lemma with_fallback_trace:
  "\<exists>ws. trace (with_fallback settings env fb body rs) = trace rs @ GenerateTags fb body # ws @ [Release fb] \<and>
      (ws = [] \<or> (\<exists>tags. ws = [ProcessFrontMatter tags]))"
  by (auto simp: with_fallback_def release_def emit_def Let_def split: option.splits)

lemma on_provider_error_with_fallback:
  assumes "createFallbackProvider (tFailure env)
             (reportProviderFailure (tFailure env) (pool rs) (provider settings))
             settings (provider settings) = (fr, st2)"
    and "fr_provider fr = Some fb" and "success fr"
  shows "\<exists>ws. trace (on_provider_error settings env body rs) =
           trace rs @ ReportFailure (provider settings) # GenerateTags fb body # ws @ [Release fb] \<and>
           (ws = [] \<or> (\<exists>tags. ws = [ProcessFrontMatter tags]))"
proof -
  let ?rs = "(emit (ReportFailure (provider settings))
      (rs\<lparr>pool := reportProviderFailure (tFailure env) (pool rs) (provider settings)\<rparr>))\<lparr>pool := st2\<rparr>"
  have "on_provider_error settings env body rs = with_fallback settings env fb body ?rs"
    using assms by (simp add: on_provider_error_def Let_def emit_def)
  moreover have "trace ?rs = trace rs @ [ReportFailure (provider settings)]"
    by (simp add: emit_def)
  ultimately show ?thesis
    using with_fallback_trace [of settings env fb body ?rs] by auto
qed

text \<open>
  One step of the reconciliation: a candidate of the vocabulary is kept, otherwise the
  first entry that \<open>findSimilarTags\<close> returns is taken, and without one the candidate is
  kept.
\<close>

lemma enhance_step_cases:
  "enhance_step existingTags tag acc =
     set_add acc
       (if tag \<in> set existingTags then tag
        else case findSimilarTags existingTags tag 2 of [] \<Rightarrow> tag | e # es \<Rightarrow> e)"
  by (simp add: enhance_step_def Let_def split: list.splits)

section \<open>The claims\<close>

text \<open>
  C1. After \<open>reportProviderFailure(kind)\<close>, \<open>createProvider\<close> for that kind is to return
  no provider while the cooldown of 60 seconds is active, and to return a provider again
  once the cooldown has elapsed, the credentials being valid. The first half holds of
  the code (\<open>createProvider_refused_after_failure\<close>); the second does not:
  \<open>reportProviderFailure\<close> also adds the kind to \<open>failedProviders\<close>, nothing removes it
  from there, and \<open>createProvider\<close> returns \<open>null\<close> for a kind in that set before it
  looks at the cooldown. Evaluated here: Claude fails at time 0 and is requested an hour
  later with a key configured. The cooldown is over, a pool without the failure hands
  out a provider, and the pool with the failure hands out none.
\<close>

theorem C1_refused_after_cooldown_elapsed:
  "claudeApiKey claude_only \<noteq> [] \<and>
   \<not> isProviderInCooldown 3600000 (reportProviderFailure 0 initial_factory CLAUDE) CLAUDE \<and>
   fst (createProvider 3600000 initial_factory claude_only) = Some (ProviderObj CLAUDE 0) \<and>
   fst (createProvider 3600000 (reportProviderFailure 0 initial_factory CLAUDE) claude_only) = None"
  by (simp add: claude_only_fields cooldown_window cooldownDuration_def create_first_claude
      createProvider_refused_after_failure)

text \<open>
  C2. A run of \<open>processFile\<close> that acquired a provider is to release it by its end on
  every path. On the path where the document has front matter and the primary provider
  fails, the \<open>catch\<close> block reports the failure and releases only a fallback provider; the
  branch for documents without front matter (\<open>processFile_plain_primary_fails\<close>) and the
  outer \<open>catch\<close> do release the primary one. Evaluated here: a document with front
  matter, \<open>generateTags\<close> rejects, no fallback key. The run acquires the Claude provider,
  calls it, reports the failure and ends: no \<open>releaseProvider\<close> is called, and the entry
  keeps the time stamp of its creation.
\<close>

theorem C2_primary_handle_not_released:
  "fst (createProvider (tAcquire run_all_reject) (pool fresh) claude_only) = Some (ProviderObj CLAUDE 0) \<and>
   trace (snd (processFile claude_only run_all_reject fresh md_file)) =
     [GenerateTags (ProviderObj CLAUDE 0) ''\<newline>body'', ReportFailure CLAUDE] \<and>
   Release (ProviderObj CLAUDE 0) \<notin> set (trace (snd (processFile claude_only run_all_reject fresh md_file))) \<and>
   map (\<lambda>e. lastUsed (snd e))
     (activeProviders (pool (snd (processFile claude_only run_all_reject fresh md_file)))) = [1000]"
  by (simp add: trace_all_reject pool_all_reject run_all_reject_fields fresh_fields
      create_first_claude claude_only_fields)

text \<open>
  C3. The pool is never to hold more than two active providers, whatever sequence of
  \<open>createProvider\<close>, \<open>createFallbackProvider\<close>, \<open>releaseProvider\<close> and
  \<open>reportProviderFailure\<close> is run. \<open>createProvider\<close> checks the bound before it stores a
  provider (\<open>createProvider_keeps_bound\<close>); \<open>createFallbackProvider\<close> stores one under a
  key made from the time and checks nothing. Evaluated here: the sequence
  \<open>switch_and_fail\<close> leaves three entries.
\<close>

theorem C3_three_active_providers:
  "maxActiveProviders = 2 \<and>
   length (activeProviders (run_ops initial_factory switch_and_fail)) = 3 \<and>
   map fst (activeProviders (run_ops initial_factory switch_and_fail)) =
     [''claude-m'', ''openai-fallback-2000'', ''claude-fallback-71000'']"
proof -
  have "length (activeProviders (run_ops initial_factory switch_and_fail)) = 3"
    using arg_cong [where f = length, OF three_active] by simp
  then show ?thesis
    by (simp add: maxActiveProviders_def three_active)
qed

text \<open>
  C4. Reconciliation is to keep a candidate that is in the vocabulary, otherwise to
  replace it by the closest vocabulary entry within distance 2, otherwise to keep it, and
  the result is to hold no tag twice. The result is distinct
  (\<open>enhanceTagConsistency_distinct\<close>), but the entry substituted is the first one within
  distance 2 in the order of the vocabulary (\<open>enhance_step_cases\<close>), which need not be
  the closest, although the source says "use the most similar existing tag" there.
  Evaluated here: the vocabulary is \<open>abcd\<close>, \<open>abc\<close> and the candidate \<open>ab\<close>; \<open>abc\<close> is
  at distance 1, and \<open>abcd\<close>, at distance 2, is substituted.
\<close>

theorem C4_first_match_not_closest:
  "enhanceTagConsistency [''abcd'', ''abc''] [''ab''] = [''abcd''] \<and>
   levenshteinDistance ''ab'' ''abc'' = 1 \<and>
   levenshteinDistance ''ab'' ''abcd'' = 2"
  by code_simp

text \<open>
  C5. \<open>findSimilarTags\<close> with threshold 2 is to return exactly the vocabulary entries at a
  Levenshtein distance above 0 and at most the threshold, ordered by ascending distance
  with ties in the order of the vocabulary, and the distance is to be the standard
  Levenshtein distance. The entries returned are the right ones and the distance is the
  Levenshtein distance (\<open>findSimilarTags_filter\<close>). But \<open>findSimilarTags\<close> returns the
  entries as the filter leaves them and does not sort them, while its only caller takes
  the first one as "the most similar existing tag". Evaluated here: for the vocabulary
  \<open>abcd\<close>, \<open>abc\<close> and the candidate \<open>ab\<close> the result is \<open>abcd\<close>, \<open>abc\<close>, at the
  distances 2, 1.
\<close>

theorem C5_result_not_sorted_by_distance:
  "findSimilarTags [''abcd'', ''abc''] ''ab'' 2 = [''abcd'', ''abc''] \<and>
   map (levenshteinDistance ''ab'') (findSimilarTags [''abcd'', ''abc''] ''ab'' 2) = [2, 1] \<and>
   \<not> sorted (map (levenshteinDistance ''ab'') (findSimilarTags [''abcd'', ''abc''] ''ab'' 2))"
  by code_simp

text \<open>
  C6. \<open>formatTags\<close>, with the configured prefix, is to be idempotent for every string and
  every prefix. With the prefix \<open>ab\<close> the tag \<open>x\<close> becomes \<open>abx\<close>, and formatting \<open>abx\<close>
  gives \<open>ababx\<close>: the prefix is added again.
\<close>

theorem C6_prefix_added_twice:
  "formatTags prefix_ab (formatTags prefix_ab [''x'']) \<noteq> formatTags prefix_ab [''x'']"
  by code_simp

text \<open>
  C6, amended. The normalization without the prefix is idempotent for every string, and
  \<open>formatTags\<close> is idempotent for every configured prefix that the normalization itself
  turns into the empty string, such as the empty prefix or \<open>#\<close>.
\<close>

theorem C6_formatTags_idempotent:
  "formattedTag (formattedTag s) = formattedTag s \<and>
   (formattedTag (tagPrefix settings) = [] \<longrightarrow>
      formatTags settings (formatTags settings tags) = formatTags settings tags)"
  by (simp add: formattedTag_idem formatTags_def formattedTag_prefix normalized_formattedTag)

theorem C6_formatTags_idempotent_witness:
  "formattedTag (tagPrefix prefix_hash) = [] \<and>
   formatTags prefix_hash [''My  Tag!''] = [''#my-tag''] \<and>
   formatTags prefix_hash (formatTags prefix_hash [''My  Tag!'']) = formatTags prefix_hash [''My  Tag!'']"
proof -
  have h: "formattedTag (tagPrefix prefix_hash) = []" by code_simp
  have v: "formatTags prefix_hash [''My  Tag!''] = [''#my-tag'']" by code_simp
  from h v C6_formatTags_idempotent [of _ prefix_hash "[''My  Tag!'']"] show ?thesis by simp
qed

text \<open>
  C7. For a non-empty body and the tags \<open>a\<close>, \<open>b\<close>, \<open>createContentWithTags\<close> gives the
  text \<open>---\ntags:\n  - a\n  - b\n---\n\n\<close> followed by the body; for a single tag it
  writes the inline list \<open>tags: [t]\<close>, not the block form.
\<close>

theorem C7_createContentWithTags:
  "content \<noteq> [] \<Longrightarrow>
   createContentWithTags content [''a'', ''b''] =
     ''---\<newline>tags:\<newline>  - a\<newline>  - b\<newline>---\<newline>\<newline>'' @ content \<and>
   createContentWithTags content [t] = ''---\<newline>tags: ['' @ t @ '']\<newline>---\<newline>\<newline>'' @ content \<and>
   createContentWithTags content [t] \<noteq> ''---\<newline>tags:\<newline>  - '' @ t @ ''\<newline>---\<newline>\<newline>'' @ content"
  by (simp add: createContentWithTags_def join_lines_def)

theorem C7_createContentWithTags_witness:
  "''body'' \<noteq> [] \<and>
   createContentWithTags ''body'' [''a'', ''b''] = ''---\<newline>tags:\<newline>  - a\<newline>  - b\<newline>---\<newline>\<newline>body'' \<and>
   createContentWithTags ''body'' [''t''] = ''---\<newline>tags: [t]\<newline>---\<newline>\<newline>body''"
proof -
  have h: "''body'' \<noteq> []" by simp
  from C7_createContentWithTags [OF h, of "''t''"] show ?thesis by simp
qed

text \<open>
  C8. When the call of the primary provider fails and a fallback is configured and not
  in cooldown, exactly one fallback call is to be made before the document is given up;
  without a fallback the document fails with no fallback call. The branch of
  \<open>processFile\<close> for documents with front matter does this
  (\<open>on_provider_error_with_fallback\<close>, \<open>on_provider_error_no_fallback\<close>). The branch for
  documents without front matter catches the failure, releases the provider and returns.
  Evaluated here: a document without front matter, both keys configured, nothing in
  cooldown, the Claude provider rejects. The only call of \<open>generateTags\<close> is the one on
  the Claude provider, although \<open>createFallbackProvider\<close> succeeds in the pool the run
  leaves.
\<close>

theorem C8_no_fallback_without_front_matter:
  "tagsFrom run_plain_claude_rejects (ProviderObj CLAUDE 0) ''body'' = None \<and>
   trace (snd (processFile both_keys run_plain_claude_rejects fresh md_file)) =
     [GenerateTags (ProviderObj CLAUDE 0) ''body'', Release (ProviderObj CLAUDE 0)] \<and>
   success (fst (createFallbackProvider 2000
     (pool (snd (processFile both_keys run_plain_claude_rejects fresh md_file))) both_keys CLAUDE))"
proof -
  have c: "createProvider 1000 initial_factory both_keys =
      (Some (ProviderObj CLAUDE 0),
       initial_factory
         \<lparr>activeProviders :=
            [(''claude-m'', \<lparr>pd_provider = ProviderObj CLAUDE 0, lastUsed = 1000, pd_id = ''claude-m''\<rparr>)],
          nextRef := 1\<rparr>)"
    by (simp add: create_first_claude both_keys_fields)
  have "providerCooldowns (pool (snd (processFile both_keys run_plain_claude_rejects fresh md_file))) OPENAI = None"
    by (simp add: processFile_def process_body_def md_file_def run_plain_fields fresh_fields c
        extract_plain without_frontmatter_def generate_formatted_def release_def emit_def
        releaseProvider_def no_cooldown_initially Let_def)
  then show ?thesis
    by (simp add: run_plain_fields trace_plain_claude_rejects fallback_was_available)
qed



text \<open>
  C10. A document whose processing fails inside \<open>processFile\<close> without an exception
  leaving it is not rewritten and is counted as processed, not as an error.
  \<open>processFile\<close> resolves on every path. It writes nothing on any path that fails: when the
  file is not markdown or no provider can be constructed it touches no collaborator;
  when \<open>vault.read\<close> rejects it only releases the provider; when the document has no
  front matter and \<open>generateTags\<close> or the write rejects it only calls and releases the
  provider; when the document has front matter and the primary attempt fails, it reports
  the failure and stops if the fallback is not configured or in cooldown, and otherwise
  calls the fallback provider once and releases it if that call or its write rejects.
  The last equation gives the writes of every run: they are empty on all other paths but
  the three where a call of \<open>generateTags\<close> and the write after it resolve. A batch over
  \<open>processFile\<close> therefore counts every document as processed and none as an error.
\<close>

theorem C10_internal_failure_counts_as_processed:
  "fst (processFile settings env rs file) = Resolved \<and>
   (extension file \<noteq> ''md'' \<longrightarrow>
      trace (snd (processFile settings env rs file)) = trace rs) \<and>
   (fst (createProvider (tAcquire env) (pool rs) settings) = None \<longrightarrow>
      trace (snd (processFile settings env rs file)) = trace rs) \<and>
   (extension file = ''md'' \<and>
    createProvider (tAcquire env) (pool rs) settings = (Some p, st') \<and>
    readResult env = None \<longrightarrow>
      trace (snd (processFile settings env rs file)) = trace rs @ [Release p]) \<and>
   (extension file = ''md'' \<and>
    createProvider (tAcquire env) (pool rs) settings = (Some p, st') \<and>
    readResult env = Some content \<and>
    extractFrontmatter content = None \<and>
    (tagsFrom env p content = None \<or> \<not> processOk env) \<longrightarrow>
      trace (snd (processFile settings env rs file)) =
        trace rs @ [GenerateTags p content, Release p]) \<and>
   (extension file = ''md'' \<and>
    createProvider (tAcquire env) (pool rs) settings = (Some p, st') \<and>
    readResult env = Some content \<and>
    extractFrontmatter content = Some (frontmatter, body) \<and>
    (tagsFrom env p body = None \<or> \<not> frontMatterOk env) \<and>
    (api_key settings (fallback_kind (provider settings)) = [] \<or>
     isProviderInCooldown (tFailure env) st' (fallback_kind (provider settings))) \<longrightarrow>
      trace (snd (processFile settings env rs file)) =
        trace rs @ [GenerateTags p body, ReportFailure (provider settings)]) \<and>
   (extension file = ''md'' \<and>
    createProvider (tAcquire env) (pool rs) settings = (Some p, st') \<and>
    readResult env = Some content \<and>
    extractFrontmatter content = Some (frontmatter, body) \<and>
    (tagsFrom env p body = None \<or> \<not> frontMatterOk env) \<and>
    createFallbackProvider (tFailure env)
      (reportProviderFailure (tFailure env) st' (provider settings))
      settings (provider settings) = (fr, st2) \<and>
    fr_provider fr = Some fb \<and> success fr \<and>
    (tagsFrom env fb body = None \<or> \<not> frontMatterRetryOk env) \<longrightarrow>
      trace (snd (processFile settings env rs file)) =
        trace rs @ [GenerateTags p body, ReportFailure (provider settings),
                    GenerateTags fb body, Release fb]) \<and>
   written (snd (processFile settings env rs file)) = written rs @
     (if extension file \<noteq> ''md'' then []
      else case createProvider (tAcquire env) (pool rs) settings of
             (None, st') \<Rightarrow> []
           | (Some p, st') \<Rightarrow>
               (case readResult env of
                  None \<Rightarrow> []
                | Some content \<Rightarrow>
                    (case extractFrontmatter content of
                       None \<Rightarrow>
                         (case generate_formatted settings env p content of
                            None \<Rightarrow> []
                          | Some tags \<Rightarrow>
                              if processOk env
                              then [VaultProcess (createContentWithTags content tags)] else [])
                     | Some (frontmatter, body) \<Rightarrow>
                         (case (case generate_formatted settings env p body of
                                  None \<Rightarrow> None
                                | Some tags \<Rightarrow> if frontMatterOk env then Some tags else None) of
                            Some tags \<Rightarrow> [ProcessFrontMatter tags]
                          | None \<Rightarrow>
                              (case createFallbackProvider (tFailure env)
                                      (reportProviderFailure (tFailure env) st' (provider settings))
                                      settings (provider settings) of
                                 (fr, st2) \<Rightarrow>
                                   (case fr_provider fr of
                                      None \<Rightarrow> []
                                    | Some fb \<Rightarrow>
                                        if success fr
                                        then (case generate_formatted settings env fb body of
                                                None \<Rightarrow> []
                                              | Some tags \<Rightarrow>
                                                  if frontMatterRetryOk env
                                                  then [ProcessFrontMatter tags] else [])
                                        else [])))))) \<and>
   processed (processAllFiles (process_document settings) rs docs) = length docs \<and>
   errors (processAllFiles (process_document settings) rs docs) = 0"
proof -
  have "\<forall>st f. fst (process_document settings st f) = Resolved"
    by (simp add: process_document_def processFile_resolves)
  then have b: "processed (processAllFiles (process_document settings) rs docs) = length docs \<and>
      errors (processAllFiles (process_document settings) rs docs) = 0"
    by (rule all_resolved_counts)
  have r: "fst (processFile settings env rs file) = Resolved"
    by (rule processFile_resolves)
  have 1: "extension file \<noteq> ''md'' \<longrightarrow> trace (snd (processFile settings env rs file)) = trace rs"
    by (simp add: processFile_not_markdown)
  have 2: "fst (createProvider (tAcquire env) (pool rs) settings) = None \<longrightarrow>
      trace (snd (processFile settings env rs file)) = trace rs"
    using processFile_no_provider [of env rs settings "file"] by blast
  have 3: "extension file = ''md'' \<and>
      createProvider (tAcquire env) (pool rs) settings = (Some p, st') \<and>
      readResult env = None \<longrightarrow>
        trace (snd (processFile settings env rs file)) = trace rs @ [Release p]"
    using processFile_read_rejects [of "file" env rs settings p st'] by blast
  have 4: "extension file = ''md'' \<and>
      createProvider (tAcquire env) (pool rs) settings = (Some p, st') \<and>
      readResult env = Some content \<and>
      extractFrontmatter content = None \<and>
      (tagsFrom env p content = None \<or> \<not> processOk env) \<longrightarrow>
        trace (snd (processFile settings env rs file)) =
          trace rs @ [GenerateTags p content, Release p]"
    using processFile_plain_fails [of "file" env rs settings p st' content] by blast
  have 5: "extension file = ''md'' \<and>
      createProvider (tAcquire env) (pool rs) settings = (Some p, st') \<and>
      readResult env = Some content \<and>
      extractFrontmatter content = Some (frontmatter, body) \<and>
      (tagsFrom env p body = None \<or> \<not> frontMatterOk env) \<and>
      (api_key settings (fallback_kind (provider settings)) = [] \<or>
       isProviderInCooldown (tFailure env) st' (fallback_kind (provider settings))) \<longrightarrow>
        trace (snd (processFile settings env rs file)) =
          trace rs @ [GenerateTags p body, ReportFailure (provider settings)]"
    using processFile_no_fallback [of "file" env rs settings p st' content frontmatter body]
    by blast
  have 6: "extension file = ''md'' \<and>
      createProvider (tAcquire env) (pool rs) settings = (Some p, st') \<and>
      readResult env = Some content \<and>
      extractFrontmatter content = Some (frontmatter, body) \<and>
      (tagsFrom env p body = None \<or> \<not> frontMatterOk env) \<and>
      createFallbackProvider (tFailure env)
        (reportProviderFailure (tFailure env) st' (provider settings))
        settings (provider settings) = (fr, st2) \<and>
      fr_provider fr = Some fb \<and> success fr \<and>
      (tagsFrom env fb body = None \<or> \<not> frontMatterRetryOk env) \<longrightarrow>
        trace (snd (processFile settings env rs file)) =
          trace rs @ [GenerateTags p body, ReportFailure (provider settings),
                      GenerateTags fb body, Release fb]"
    using processFile_fallback_fails
      [of "file" env rs settings p st' content frontmatter body fr st2 fb]
    by blast
  note w = processFile_written [of settings env rs "file"]
  note b1 = b [THEN conjunct1] and b2 = b [THEN conjunct2]
  show ?thesis
    by (intro conjI; fact r 1 2 3 4 5 6 w b1 b2)
qed

theorem C10_internal_failure_counts_as_processed_witness:
  "extension txt_file \<noteq> ''md'' \<and>
   trace (snd (processFile claude_only run_all_reject fresh txt_file)) = [] \<and>
   fst (createProvider (tAcquire run_all_reject) (pool fresh) no_keys) = None \<and>
   trace (snd (processFile no_keys run_all_reject fresh md_file)) = [] \<and>
   extension md_file = ''md'' \<and>
   fst (createProvider (tAcquire run_read_rejects) (pool fresh) claude_only) = Some (ProviderObj CLAUDE 0) \<and>
   readResult run_read_rejects = None \<and>
   trace (snd (processFile claude_only run_read_rejects fresh md_file)) = [Release (ProviderObj CLAUDE 0)] \<and>
   readResult run_plain_claude_rejects = Some ''body'' \<and>
   extractFrontmatter ''body'' = None \<and>
   tagsFrom run_plain_claude_rejects (ProviderObj CLAUDE 0) ''body'' = None \<and>
   trace (snd (processFile both_keys run_plain_claude_rejects fresh md_file)) =
     [GenerateTags (ProviderObj CLAUDE 0) ''body'', Release (ProviderObj CLAUDE 0)] \<and>
   readResult run_all_reject = Some doc_with_frontmatter \<and>
   extractFrontmatter doc_with_frontmatter = Some (''title: x'', ''\<newline>body'') \<and>
   tagsFrom run_all_reject (ProviderObj CLAUDE 0) ''\<newline>body'' = None \<and>
   api_key claude_only (fallback_kind (provider claude_only)) = [] \<and>
   trace (snd (processFile claude_only run_all_reject fresh md_file)) =
     [GenerateTags (ProviderObj CLAUDE 0) ''\<newline>body'', ReportFailure CLAUDE] \<and>
   tagsFrom run_all_reject (ProviderObj OPENAI 1) ''\<newline>body'' = None \<and>
   trace (snd (processFile both_keys run_all_reject fresh md_file)) =
     [GenerateTags (ProviderObj CLAUDE 0) ''\<newline>body'', ReportFailure CLAUDE,
      GenerateTags (ProviderObj OPENAI 1) ''\<newline>body'', Release (ProviderObj OPENAI 1)] \<and>
   fst (processFile both_keys run_all_reject fresh md_file) = Resolved \<and>
   processed (processAllFiles (process_document claude_only) fresh
     [(txt_file, run_all_reject), (md_file, run_read_rejects), (md_file, run_all_reject)]) = 3 \<and>
   errors (processAllFiles (process_document claude_only) fresh
     [(txt_file, run_all_reject), (md_file, run_read_rejects), (md_file, run_all_reject)]) = 0"
proof -
  let ?st = "initial_factory
         \<lparr>activeProviders :=
            [(''claude-m'', \<lparr>pd_provider = ProviderObj CLAUDE 0, lastUsed = 1000, pd_id = ''claude-m''\<rparr>)],
          nextRef := 1\<rparr>"
  let ?p = "ProviderObj CLAUDE 0" and ?fb = "ProviderObj OPENAI 1"
  have t: "extension txt_file \<noteq> ''md''" by (simp add: txt_file_def)
  have m: "extension md_file = ''md''" by (simp add: md_file_def)
  have n: "fst (createProvider (tAcquire run_all_reject) (pool fresh) no_keys) = None"
    by (simp add: fresh_fields create_without_key)
  have c: "createProvider (tAcquire run_all_reject) (pool fresh) claude_only = (Some ?p, ?st)"
    by (simp add: run_all_reject_fields fresh_fields create_first_claude claude_only_fields)
  have cr: "createProvider (tAcquire run_read_rejects) (pool fresh) claude_only = (Some ?p, ?st)"
    by (simp add: run_read_rejects_fields fresh_fields create_first_claude claude_only_fields)
  have cb: "createProvider (tAcquire run_all_reject) (pool fresh) both_keys = (Some ?p, ?st)"
    by (simp add: run_all_reject_fields fresh_fields create_first_claude both_keys_fields)
  have cp: "createProvider (tAcquire run_plain_claude_rejects) (pool fresh) both_keys = (Some ?p, ?st)"
    by (simp add: run_plain_fields fresh_fields create_first_claude both_keys_fields)
  have k: "api_key claude_only (fallback_kind (provider claude_only)) = []"
    by (simp add: api_key_def fallback_kind_def claude_only_fields)
  obtain fr st2 where f: "createFallbackProvider (tFailure run_all_reject)
      (reportProviderFailure (tFailure run_all_reject) ?st (provider both_keys))
      both_keys (provider both_keys) = (fr, st2)"
    by (cases "createFallbackProvider (tFailure run_all_reject)
      (reportProviderFailure (tFailure run_all_reject) ?st (provider both_keys))
      both_keys (provider both_keys)")
  then have "createFallbackProvider 2000 (reportProviderFailure 2000 ?st CLAUDE) both_keys CLAUDE = (fr, st2)"
    by (simp add: run_all_reject_fields both_keys_fields)
  with fallback_after_first_failure have fr: "fr_provider fr = Some ?fb" "success fr"
    by simp_all
  have 1: "trace (snd (processFile claude_only run_all_reject fresh txt_file)) = []"
    using C10_internal_failure_counts_as_processed [of claude_only run_all_reject fresh txt_file] t
    by (simp add: fresh_fields)
  have 2: "trace (snd (processFile no_keys run_all_reject fresh md_file)) = []"
    using C10_internal_failure_counts_as_processed [of no_keys run_all_reject fresh md_file] n
    by (simp add: fresh_fields)
  have 3: "trace (snd (processFile claude_only run_read_rejects fresh md_file)) = [Release ?p]"
    using C10_internal_failure_counts_as_processed
      [of claude_only run_read_rejects fresh md_file ?p ?st] m cr
    by (simp add: run_read_rejects_fields fresh_fields)
  have 4: "trace (snd (processFile both_keys run_plain_claude_rejects fresh md_file)) =
      [GenerateTags ?p ''body'', Release ?p]"
    using C10_internal_failure_counts_as_processed
      [of both_keys run_plain_claude_rejects fresh md_file ?p ?st "''body''"] m cp
    by (simp add: run_plain_fields extract_plain fresh_fields)
  have 5: "trace (snd (processFile claude_only run_all_reject fresh md_file)) =
      [GenerateTags ?p ''\<newline>body'', ReportFailure CLAUDE]"
    using C10_internal_failure_counts_as_processed
      [of claude_only run_all_reject fresh md_file ?p ?st doc_with_frontmatter
        "''title: x''" "''\<newline>body''"] m c k
    by (simp add: run_all_reject_fields extract_doc_with_frontmatter fresh_fields claude_only_fields)
  have 6: "trace (snd (processFile both_keys run_all_reject fresh md_file)) =
      [GenerateTags ?p ''\<newline>body'', ReportFailure CLAUDE, GenerateTags ?fb ''\<newline>body'', Release ?fb]"
    using C10_internal_failure_counts_as_processed
      [of both_keys run_all_reject fresh md_file ?p ?st doc_with_frontmatter
        "''title: x''" "''\<newline>body''" fr st2 ?fb] m cb f fr
    by (simp add: run_all_reject_fields extract_doc_with_frontmatter fresh_fields both_keys_fields)
  have 7: "fst (processFile both_keys run_all_reject fresh md_file) = Resolved"
    using C10_internal_failure_counts_as_processed [of both_keys run_all_reject fresh md_file]
    by simp
  have 8: "processed (processAllFiles (process_document claude_only) fresh
       [(txt_file, run_all_reject), (md_file, run_read_rejects), (md_file, run_all_reject)]) = 3 \<and>
     errors (processAllFiles (process_document claude_only) fresh
       [(txt_file, run_all_reject), (md_file, run_read_rejects), (md_file, run_all_reject)]) = 0"
    using C10_internal_failure_counts_as_processed
      [of claude_only run_all_reject fresh md_file _ _ _ _ _ _ _ _
        "[(txt_file, run_all_reject), (md_file, run_read_rejects), (md_file, run_all_reject)]"]
    by simp
  show ?thesis
    using t m n cr 1 2 3 4 5 6 7 8 k
    by (simp add: run_all_reject_fields run_read_rejects_fields run_plain_fields
        extract_plain extract_doc_with_frontmatter)
qed

end
